theory Spec2Isabelle
  imports Main "HOL-Library.AList"
begin

section \<open>JavaScript values\<close>

text \<open>
  Parsed JSON as the handlers of \<^verbatim>\<open>app/page.tsx\<close> and \<^verbatim>\<open>app/api/parallel/route.ts\<close>
  receive it. An object is the list of its own properties in the order
  \<^verbatim>\<open>Object.entries\<close> enumerates them, with pairwise different keys. Numbers are carried as
  integers: the code only tests them for truthiness and copies them. The JavaScript value
  \<^verbatim>\<open>undefined\<close> is \<open>None\<close> of an option type wherever a read may yield it.
  Strings are lists of 8-bit code units.
\<close>

datatype json =
    JNull
  | JBool bool
  | JNum int
  | JStr string
  | JArr "json list"
  | JObj "(string \<times> json) list"

fun truthy :: "json \<Rightarrow> bool" where
  "truthy JNull = False"
| "truthy (JBool b) = b"
| "truthy (JNum n) = (n \<noteq> 0)"
| "truthy (JStr s) = (s \<noteq> [])"
| "truthy (JArr xs) = True"
| "truthy (JObj kvs) = True"

definition truthy_opt :: "json option \<Rightarrow> bool" where
  "truthy_opt v = (case v of None \<Rightarrow> False | Some x \<Rightarrow> truthy x)"

text \<open>
  \<^verbatim>\<open>x?.k\<close>: a property read through optional chaining. None of the keys the code reads
  (\<^verbatim>\<open>type\<close>, \<^verbatim>\<open>run\<close>, \<^verbatim>\<open>status\<close>, \<^verbatim>\<open>run_id\<close>, \<^verbatim>\<open>output\<close>, \<^verbatim>\<open>content\<close>,
  \<^verbatim>\<open>is_active\<close>) is a property of a string, a number, a boolean, an array or of
  \<^verbatim>\<open>Object.prototype\<close>, so only an object's own properties answer.
\<close>

definition get_prop :: "json option \<Rightarrow> string \<Rightarrow> json option" where
  "get_prop v k = (case v of Some (JObj kvs) \<Rightarrow> map_of kvs k | _ \<Rightarrow> None)"

text \<open>\<^verbatim>\<open>xs[i]\<close> on an array: \<^verbatim>\<open>undefined\<close> outside the array.\<close>

definition js_nth :: "'a list \<Rightarrow> int \<Rightarrow> 'a option" where
  "js_nth xs i = (if 0 \<le> i \<and> i < int (length xs) then Some (xs ! nat i) else None)"

text \<open>\<^verbatim>\<open>xs[i] = x\<close> on an array: a write past the end leaves holes before the new element.\<close>

definition js_set :: "'a option list \<Rightarrow> nat \<Rightarrow> 'a \<Rightarrow> 'a option list" where
  "js_set xs i x =
     (if i < length xs then xs[i := Some x]
      else xs @ replicate (i - length xs) None @ [Some x])"

text \<open>\<^verbatim>\<open>xs.findIndex(p)\<close>, with \<open>None\<close> for the result \<^verbatim>\<open>-1\<close>.\<close>

fun findIndex :: "('a \<Rightarrow> bool) \<Rightarrow> 'a list \<Rightarrow> nat option" where
  "findIndex p [] = None"
| "findIndex p (x # xs) =
     (if p x then Some 0 else (case findIndex p xs of None \<Rightarrow> None | Some i \<Rightarrow> Some (Suc i)))"

text \<open>
  \<^verbatim>\<open>Object.fromEntries\<close>: a later entry with the same key replaces the value and keeps the
  key's first position.
\<close>

definition fromEntries :: "(string \<times> 'v) list \<Rightarrow> (string \<times> 'v) list" where
  "fromEntries es = foldl (\<lambda>obj (k, v). AList.update k v obj) [] es"

subsection \<open>Strings\<close>

definition lower_char :: "char \<Rightarrow> char" where
  "lower_char c =
     (let n = (of_char c :: nat) in if 65 \<le> n \<and> n \<le> 90 then char_of (n + 32) else c)"

definition is_lower_alnum :: "char \<Rightarrow> bool" where
  "is_lower_alnum c =
     (let n = (of_char c :: nat) in (48 \<le> n \<and> n \<le> 57) \<or> (97 \<le> n \<and> n \<le> 122))"

definition is_space :: "char \<Rightarrow> bool" where
  "is_space c = ((of_char c :: nat) \<in> {9, 10, 11, 12, 13, 32, 160})"

definition trim :: "string \<Rightarrow> string" where
  "trim s = rev (dropWhile is_space (rev (dropWhile is_space s)))"

text \<open>
  \<^verbatim>\<open>function norm(s) { return (s || '').toLowerCase().replace(/[^a-z0-9]+/g, '').trim(); }\<close>
  On 8-bit code units \<^verbatim>\<open>toLowerCase\<close> changes \<^verbatim>\<open>A-Z\<close> and letters above 127, and the
  latter are deleted by the replacement whichever case they have.
\<close>

definition norm :: "string \<Rightarrow> string" where
  "norm s = trim (filter is_lower_alnum (map lower_char s))"

fun string_of_nat :: "nat \<Rightarrow> string" where
  "string_of_nat n =
     (if n < 10 then [char_of (48 + n)]
      else string_of_nat (n div 10) @ [char_of (48 + n mod 10)])"

definition string_of_int :: "int \<Rightarrow> string" where
  "string_of_int i = (if i < 0 then CHR ''-'' # string_of_nat (nat (- i)) else string_of_nat (nat i))"

fun join :: "string \<Rightarrow> string list \<Rightarrow> string" where
  "join sep [] = []"
| "join sep [x] = x"
| "join sep (x # y # ys) = x @ sep @ join sep (y # ys)"

text \<open>\<^verbatim>\<open>v.toString()\<close> / \<^verbatim>\<open>String(v)\<close> of a value that is not \<^verbatim>\<open>undefined\<close>.\<close>

fun js_toString :: "json \<Rightarrow> string" where
  "js_toString JNull = ''null''"
| "js_toString (JBool b) = (if b then ''true'' else ''false'')"
| "js_toString (JNum n) = string_of_int n"
| "js_toString (JStr s) = s"
| "js_toString (JArr xs) =
     join '','' (map (\<lambda>x. if x = JNull then [] else js_toString x) xs)"
| "js_toString (JObj kvs) = ''[object Object]''"

section \<open>The sheet (\<^verbatim>\<open>app/page.tsx\<close>)\<close>

text \<open>
  \<^verbatim>\<open>type Cell = { value: string | number | ''; readOnly?: boolean; className?: string }\<close>.
  \<^verbatim>\<open>applyRowResult\<close> stores whatever JSON value a job returned, so the value is a
  \<open>json\<close>. A row is an array of cells in which a slot may be a hole.
\<close>

record cell =
  cell_value :: json
  readOnly :: "bool option"
  className :: "string option"

type_synonym sheet_row = "cell option list"
type_synonym sheet = "sheet_row list"

text \<open>A \<^verbatim>\<open>Point\<close> \<^verbatim>\<open>{row, column}\<close> as the pair \<open>(row, column)\<close>.\<close>

type_synonym point = "int \<times> int"

text \<open>\<^verbatim>\<open>type Range = { start: Point; end: Point }\<close>\<close>

record sel_range =
  range_start :: point
  range_end :: point

text \<open>\<^verbatim>\<open>type RunMapEntry = { row: number; targetCols: number[]; targetHeaders: string[] }\<close>\<close>

record RunMapEntry =
  row :: int
  targetCols :: "int list"
  targetHeaders :: "string list"

text \<open>\<^verbatim>\<open>c?.value ?? ''\<close>\<close>

definition value_or_empty :: "cell option \<Rightarrow> json" where
  "value_or_empty c =
     (case c of None \<Rightarrow> JStr [] | Some x \<Rightarrow> (if cell_value x = JNull then JStr [] else cell_value x))"

text \<open>\<^verbatim>\<open>(data[0] || []).map((c) => (c?.value ?? '').toString())\<close>\<close>

definition headers_of :: "sheet \<Rightarrow> string list" where
  "headers_of d = map (\<lambda>c. js_toString (value_or_empty c)) (case d of [] \<Rightarrow> [] | h # _ \<Rightarrow> h)"

text \<open>
  \<^verbatim>\<open>headers.forEach((h, i) => (map[norm(h)] = i))\<close>: of two headers with the same
  normal form the right one stays in the table.
\<close>

definition headerIndex :: "string list \<Rightarrow> (string \<rightharpoonup> int)" where
  "headerIndex hs = foldl (\<lambda>m (i, h). m(norm h \<mapsto> int i)) Map.empty (enumerate 0 hs)"

text \<open>
  The React state of \<^verbatim>\<open>Page\<close> that the run logic reads and writes. \<open>pending\<close> is the
  \<^verbatim>\<open>Set<string>\<close> of keys \<^verbatim>\<open>`${row}:${column}`\<close>, each key standing for its point.
  \<open>esRef\<close> is \<^verbatim>\<open>esRef.current\<close>, the handle of an \<^verbatim>\<open>EventSource\<close>;
  \<open>es_open\<close> holds the handles created and not yet closed, \<open>timeouts\<close> the
  \<^verbatim>\<open>setTimeout\<close> timers armed and neither fired nor cleared. Handles and timers carry the
  number of the \<^verbatim>\<open>enrich\<close> call that created them. The state updates of one handler
  are applied together (React batches them), so a handler is one function on the state.
  The live message, the flash marks, the elapsed time and the initial count are
  presentation only and are left out.
\<close>

record page_state =
  sheet_data :: sheet
  range_sel :: "sel_range option"
  pending :: "point set"
  busy :: bool
  successCount :: nat
  errorCount :: nat
  currentTaskGroupId :: "string option"
  esRef :: "nat option"
  es_open :: "nat set"
  timeouts :: "nat set"

definition addPending :: "point list \<Rightarrow> page_state \<Rightarrow> page_state" where
  "addPending cells s = s\<lparr>pending := pending s \<union> set cells\<rparr>"

definition clearPending :: "point list \<Rightarrow> page_state \<Rightarrow> page_state" where
  "clearPending cells s =
     (if pending s = {} then s else s\<lparr>pending := pending s - set cells\<rparr>)"

subsection \<open>\<^verbatim>\<open>applyRowResult\<close>\<close>

text \<open>
  \<^verbatim>\<open>content && typeof content === 'object' && !Array.isArray(content) ? content : {}\<close>,
  then \<^verbatim>\<open>Object.entries\<close>.
\<close>

definition content_entries :: "json \<Rightarrow> (string \<times> json) list" where
  "content_entries content = (case content of JObj kvs \<Rightarrow> kvs | _ \<Rightarrow> [])"

text \<open>
  \<^verbatim>\<open>targetCols && targetCols.length ? targetCols
     : (targetHeaders || []).map((h) => headerIndex[norm(h)]).filter((x) => Number.isInteger(x))\<close>
\<close>

definition tCols_of :: "(string \<rightharpoonup> int) \<Rightarrow> string list option \<Rightarrow> int list option \<Rightarrow> int list" where
  "tCols_of hi ths tcs =
     (case tcs of
        Some (c # cs) \<Rightarrow> c # cs
      | _ \<Rightarrow> List.map_filter (\<lambda>h. hi (norm h)) (case ths of None \<Rightarrow> [] | Some hs \<Rightarrow> hs))"

text \<open>
  The column of one output key \<open>k\<close>:
  \<^verbatim>\<open>let col = headerIndex[norm(k)];
  if (!Number.isInteger(col) && targetHeaders && targetHeaders.length) {
    const nk = norm(k);
    const idx = targetHeaders.findIndex((th) => norm(th) === nk);
    if (idx >= 0) col = tCols[idx];
  }\<close>
\<close>

definition resolve_col :: "(string \<rightharpoonup> int) \<Rightarrow> string list option \<Rightarrow> int list \<Rightarrow> string \<Rightarrow> int option" where
  "resolve_col hi ths tCols k =
     (case hi (norm k) of
        Some c \<Rightarrow> Some c
      | None \<Rightarrow>
          (case ths of
             Some (t # ts) \<Rightarrow>
               (case findIndex (\<lambda>th. norm th = norm k) (t # ts) of
                  Some idx \<Rightarrow> js_nth tCols (int idx)
                | None \<Rightarrow> None)
           | _ \<Rightarrow> None))"

text \<open>
  \<^verbatim>\<open>rowArr[col] = { ...(rowArr[col] || {}), value: v }\<close> where
  \<^verbatim>\<open>rowArr = next[row] || []\<close>: when \<open>r\<close> is no row of the sheet the write goes to a
  fresh array that is thrown away.
\<close>

definition put_value :: "sheet_row \<Rightarrow> nat \<Rightarrow> json \<Rightarrow> sheet_row" where
  "put_value rowArr c v =
     js_set rowArr c
       (case js_nth rowArr (int c) of
          Some (Some old) \<Rightarrow> old\<lparr>cell_value := v\<rparr>
        | _ \<Rightarrow> \<lparr>cell_value = v, readOnly = None, className = None\<rparr>)"

definition write_cell :: "int \<Rightarrow> int \<Rightarrow> json \<Rightarrow> sheet \<Rightarrow> sheet" where
  "write_cell r c v d =
     (if 0 \<le> r \<and> r < int (length d) then d[nat r := put_value (d ! nat r) (nat c) v] else d)"

definition header_len :: "sheet \<Rightarrow> nat" where
  "header_len d = (case d of [] \<Rightarrow> 0 | h # _ \<Rightarrow> length h)"

text \<open>One turn of \<^verbatim>\<open>for (const [k, v] of Object.entries(obj))\<close>.\<close>

definition apply_entry ::
  "(string \<rightharpoonup> int) \<Rightarrow> int \<Rightarrow> string list option \<Rightarrow> int list \<Rightarrow> page_state \<Rightarrow> string \<times> json \<Rightarrow> page_state" where
  "apply_entry hi r ths tCols s kv =
     (case resolve_col hi ths tCols (fst kv) of
        None \<Rightarrow> s
      | Some c \<Rightarrow>
          if 0 \<le> c \<and> c < int (header_len (sheet_data s))
          then (clearPending [(r, c)] (s\<lparr>sheet_data := write_cell r c (snd kv) (sheet_data s)\<rparr>))
                 \<lparr>successCount := successCount s + 1\<rparr>
          else s)"

definition applyRowResult ::
  "(string \<rightharpoonup> int) \<Rightarrow> int \<Rightarrow> json \<Rightarrow> string list option \<Rightarrow> int list option \<Rightarrow> page_state \<Rightarrow> page_state" where
  "applyRowResult hi r content ths tcs s =
     foldl (apply_entry hi r ths (tCols_of hi ths tcs)) s (content_entries content)"


subsection \<open>Selection and the job descriptors of \<^verbatim>\<open>enrich\<close>\<close>

text \<open>
  \<^verbatim>\<open>onSelect\<close>: the range the grid reports is clamped to the sheet and ordered, then
  stored. \<open>None\<close> is an empty selection or one without a range.
\<close>

definition clamp_point :: "sheet \<Rightarrow> point \<Rightarrow> point" where
  "clamp_point d p =
     (let maxRow = int (length d) - 1; maxCol = int (header_len d) - 1
      in (max 0 (min maxRow (fst p)), max 0 (min maxCol (snd p))))"

definition onSelect :: "sel_range option \<Rightarrow> page_state \<Rightarrow> page_state" where
  "onSelect sel s =
     (case sel of
        None \<Rightarrow> s
      | Some r \<Rightarrow>
          (let a = clamp_point (sheet_data s) (range_start r);
               b = clamp_point (sheet_data s) (range_end r)
           in s\<lparr>range_sel := Some \<lparr>range_start = (min (fst a) (fst b), min (snd a) (snd b)),
                                  range_end = (max (fst a) (fst b), max (snd a) (snd b))\<rparr>\<rparr>))"

text \<open>
  \<^verbatim>\<open>const startRow = Math.max(1, range.start.row);
  const endRow = Math.max(startRow, range.end.row);
  const startCol = range.start.column;
  const endCol = range.end.column;\<close>
\<close>

definition startRow :: "sel_range \<Rightarrow> int" where
  "startRow rg = max 1 (fst (range_start rg))"

definition endRow :: "sel_range \<Rightarrow> int" where
  "endRow rg = max (startRow rg) (fst (range_end rg))"

definition startCol :: "sel_range \<Rightarrow> int" where
  "startCol rg = snd (range_start rg)"

definition endCol :: "sel_range \<Rightarrow> int" where
  "endCol rg = snd (range_end rg)"

text \<open>
  \<^verbatim>\<open>for (let r = startRow; r <= endRow; r++)
    for (let c = startCol; c <= endCol; c++) selectedCells.push({ row: r, column: c });\<close>
\<close>

definition selected_cells :: "sel_range \<Rightarrow> point list" where
  "selected_cells rg =
     concat (map (\<lambda>r. map (\<lambda>c. (r, c)) [startCol rg..endCol rg]) [startRow rg..endRow rg])"

text \<open>
  One element of \<^verbatim>\<open>rowsPayload\<close>. A target header read past the header row is
  \<^verbatim>\<open>undefined\<close>, and so is a context value read past the row.
\<close>

record job_spec =
  spec_row :: int
  spec_context :: "(string \<times> json option) list"
  spec_targetHeaders :: "string option list"
  spec_targetCols :: "int list"

text \<open>\<^verbatim>\<open>data[r]?.map(c => c?.value ?? '') || []\<close>\<close>

definition rowVals :: "sheet \<Rightarrow> int \<Rightarrow> json list" where
  "rowVals d r = (case js_nth d r of None \<Rightarrow> [] | Some cells \<Rightarrow> map value_or_empty cells)"

text \<open>
  \<^verbatim>\<open>const context = Object.fromEntries(headersRow.map((h, i) => [h, rowVals[i]]));
  const tCols = Array.from({ length: endCol - startCol + 1 }, (_, i) => startCol + i);
  const tHeaders = tCols.map(c => headersRow[c]);
  rowsPayload.push({ row: r, context, targetHeaders: tHeaders, targetCols: tCols });\<close>
\<close>

definition row_job :: "sheet \<Rightarrow> sel_range \<Rightarrow> int \<Rightarrow> job_spec" where
  "row_job d rg r =
     (let headersRow = headers_of d;
          tCols = map (\<lambda>i. startCol rg + int i) [0..<nat (endCol rg - startCol rg + 1)]
      in \<lparr>spec_row = r,
          spec_context =
            fromEntries (map (\<lambda>(i, h). (h, js_nth (rowVals d r) (int i))) (enumerate 0 headersRow)),
          spec_targetHeaders = map (js_nth headersRow) tCols,
          spec_targetCols = tCols\<rparr>)"

text \<open>
  The descriptors \<^verbatim>\<open>enrich\<close> builds on a sheet whose header row has no hole; with a
  hole the loop throws at its first turn (see \<open>enrich_begin\<close> below) and nothing is
  submitted.
\<close>

definition rowsPayload :: "sheet \<Rightarrow> sel_range \<Rightarrow> job_spec list" where
  "rowsPayload d rg = map (row_job d rg) [startRow rg..endRow rg]"

subsection \<open>The run: \<^verbatim>\<open>enrich\<close>, \<^verbatim>\<open>handleEventData\<close>, \<^verbatim>\<open>cancelEnrichment\<close>\<close>

text \<open>
  What the callbacks created by one call of \<^verbatim>\<open>enrich\<close> close over: the cells
  selected, the \<^verbatim>\<open>run_map\<close> of the response, the header table \<^verbatim>\<open>applyRowResult\<close>
  was built with, and the number of the call, which names its \<^verbatim>\<open>EventSource\<close>
  \<^verbatim>\<open>es\<close> and its \<^verbatim>\<open>timeout\<close>. A run id is taken not to be the name of a member of
  \<^verbatim>\<open>Object.prototype\<close>, so that \<^verbatim>\<open>run_map[runId]\<close> reads own properties only.
\<close>

record run_ctx =
  run_no :: nat
  selectedCells :: "point list"
  run_map :: "string \<rightharpoonup> RunMapEntry"
  header_index :: "string \<rightharpoonup> int"

text \<open>
  A slot of the header row that is a hole. \<^verbatim>\<open>map\<close> keeps a hole a hole, so
  \<^verbatim>\<open>headersRow\<close> and \<^verbatim>\<open>headersRow.map((h, i) => [h, rowVals[i]])\<close> have it too, and
  \<^verbatim>\<open>Object.fromEntries\<close>, which reads the array through its iterator, meets
  \<^verbatim>\<open>undefined\<close> in place of an entry and throws a \<^verbatim>\<open>TypeError\<close>.
\<close>

definition header_has_hole :: "sheet \<Rightarrow> bool" where
  "header_has_hole d = (None \<in> set (case d of [] \<Rightarrow> [] | h # _ \<Rightarrow> h))"

text \<open>
  The synchronous part of \<^verbatim>\<open>enrich\<close>, up to the request:
  \<^verbatim>\<open>if (!range || busy) return; ... clearSelection(); ... addPending(selectedCells);
  setSuccessCount(0); setErrorCount(0); ...
  for (let r = startRow; r <= endRow; r++) { ... Object.fromEntries(...) ... }
  try { setBusy(true); ...\<close>
  The loop that builds \<^verbatim>\<open>rowsPayload\<close> runs at least once (\<^verbatim>\<open>endRow\<close> is at least
  \<^verbatim>\<open>startRow\<close>) and stands before the \<^verbatim>\<open>try\<close>: where the header row has a hole it
  throws, \<^verbatim>\<open>enrich\<close> ends there, and the updates made so far stay while
  \<^verbatim>\<open>setBusy(true)\<close> is never reached.
\<close>

definition enrich_begin :: "page_state \<Rightarrow> page_state" where
  "enrich_begin s =
     (case range_sel s of
        None \<Rightarrow> s
      | Some rg \<Rightarrow>
          if busy s then s
          else
            (let s1 = (addPending (selected_cells rg) (s\<lparr>range_sel := None\<rparr>))
                        \<lparr>successCount := 0, errorCount := 0\<rparr>
             in if header_has_hole (sheet_data s) then s1 else s1\<lparr>busy := True\<rparr>))"

text \<open>
  The \<^verbatim>\<open>catch\<close> block of \<^verbatim>\<open>enrich\<close> (the request failed):
  \<^verbatim>\<open>setBusy(false); setCurrentTaskGroupId(null); clearPending(selectedCells);\<close>
\<close>

definition enrich_failed :: "run_ctx \<Rightarrow> page_state \<Rightarrow> page_state" where
  "enrich_failed ctx s =
     clearPending (selectedCells ctx) (s\<lparr>busy := False, currentTaskGroupId := None\<rparr>)"

text \<open>
  After a good response: \<^verbatim>\<open>setCurrentTaskGroupId(taskgroup_id); const es = new
  EventSource(...); esRef.current = es; ... const timeout = setTimeout(..., 600000);\<close>
\<close>

definition enrich_opened :: "run_ctx \<Rightarrow> string \<Rightarrow> page_state \<Rightarrow> page_state" where
  "enrich_opened ctx taskgroup_id s =
     s\<lparr>currentTaskGroupId := Some taskgroup_id,
       esRef := Some (run_no ctx),
       es_open := insert (run_no ctx) (es_open s),
       timeouts := insert (run_no ctx) (timeouts s)\<rparr>"

text \<open>\<^verbatim>\<open>runId && run_map[runId]\<close>\<close>

definition lookup_run :: "run_ctx \<Rightarrow> json option \<Rightarrow> RunMapEntry option" where
  "lookup_run ctx runId =
     (case runId of
        None \<Rightarrow> None
      | Some v \<Rightarrow> if truthy v then run_map ctx (js_toString v) else None)"

text \<open>\<^verbatim>\<open>const out = output.content || data.output;\<close>\<close>

definition output_content :: "json \<Rightarrow> json" where
  "output_content output =
     (case get_prop (Some output) ''content'' of
        Some c \<Rightarrow> if truthy c then c else output
      | None \<Rightarrow> output)"

text \<open>The branch of \<^verbatim>\<open>handleEventData\<close> taken on \<^verbatim>\<open>isActive === false\<close>.\<close>

definition group_inactive :: "run_ctx \<Rightarrow> page_state \<Rightarrow> page_state" where
  "group_inactive ctx s =
     (clearPending (selectedCells ctx)
        (s\<lparr>esRef := None, es_open := es_open s - {run_no ctx}\<rparr>))
       \<lparr>timeouts := timeouts s - {run_no ctx}, busy := False, currentTaskGroupId := None\<rparr>"

definition handleEventData :: "run_ctx \<Rightarrow> json \<Rightarrow> page_state \<Rightarrow> page_state" where
  "handleEventData ctx obj s =
     (let eventType = get_prop (Some obj) ''type'' in
      if eventType = Some (JStr ''task_run.state'') \<or> eventType = Some (JStr ''task_run'') then
        (let run = get_prop (Some obj) ''run'';
             runStatus = get_prop run ''status'';
             runId = get_prop run ''run_id''
         in if runStatus = Some (JStr ''completed'') \<and> truthy_opt (get_prop (Some obj) ''output'') then
              (case (get_prop (Some obj) ''output'', lookup_run ctx runId) of
                 (Some output, Some meta) \<Rightarrow>
                   applyRowResult (header_index ctx) (row meta) (output_content output)
                     (Some (targetHeaders meta)) (Some (targetCols meta)) s
               | _ \<Rightarrow> s)
            else if runStatus = Some (JStr ''failed'') then
              (let s1 = s\<lparr>errorCount := errorCount s + 1\<rparr>
               in case lookup_run ctx runId of
                    Some meta \<Rightarrow> clearPending (map (\<lambda>col. (row meta, col)) (targetCols meta)) s1
                  | None \<Rightarrow> s1)
            else s)
      else if eventType = Some (JStr ''task_group_status'') then
        (if get_prop (get_prop (Some obj) ''status'') ''is_active'' = Some (JBool False)
         then group_inactive ctx s else s)
      else s)"

text \<open>
  \<^verbatim>\<open>es.onerror\<close> as finally installed: \<^verbatim>\<open>clearTimeout(timeout)\<close>, then
  \<^verbatim>\<open>es.close(); esRef.current = null; setBusy(false); setCurrentTaskGroupId(null);
  clearPending(selectedCells);\<close>
\<close>

definition es_onerror :: "run_ctx \<Rightarrow> page_state \<Rightarrow> page_state" where
  "es_onerror ctx s =
     clearPending (selectedCells ctx)
       (s\<lparr>timeouts := timeouts s - {run_no ctx}, es_open := es_open s - {run_no ctx},
          esRef := None, busy := False, currentTaskGroupId := None\<rparr>)"

text \<open>
  The callback of \<^verbatim>\<open>setTimeout(..., 600000)\<close>:
  \<^verbatim>\<open>es.close(); esRef.current = null; clearPending(selectedCells); setBusy(false);
  setCurrentTaskGroupId(null);\<close>
\<close>

definition timeout_callback :: "run_ctx \<Rightarrow> page_state \<Rightarrow> page_state" where
  "timeout_callback ctx s =
     (clearPending (selectedCells ctx)
        (s\<lparr>es_open := es_open s - {run_no ctx}, esRef := None\<rparr>))
       \<lparr>busy := False, currentTaskGroupId := None\<rparr>"

text \<open>
  \<^verbatim>\<open>cancelEnrichment\<close>. The \<^verbatim>\<open>DELETE\<close> request changes nothing on the page whatever
  its answer, and is taken to answer at once.
  \<^verbatim>\<open>if (!currentTaskGroupId || !busy) return;
  ...
  if (esRef.current) { esRef.current.close(); esRef.current = null; }
  setPending(new Set()); setBusy(false); setCurrentTaskGroupId(null);
  ... setSuccessCount(0); setErrorCount(0);\<close>
\<close>

definition cancelEnrichment :: "page_state \<Rightarrow> page_state" where
  "cancelEnrichment s =
     (if currentTaskGroupId s = None \<or> currentTaskGroupId s = Some [] \<or> \<not> busy s then s
      else s\<lparr>es_open := (case esRef s of None \<Rightarrow> es_open s | Some h \<Rightarrow> es_open s - {h}),
             esRef := None, pending := {}, busy := False, currentTaskGroupId := None,
             successCount := 0, errorCount := 0\<rparr>)"

text \<open>
  What can happen to the page. A message or an error of an \<^verbatim>\<open>EventSource\<close> reaches its
  listeners only while the source is not closed; a timer runs its callback once, and only
  if it was not cleared; the grid reports selections only while \<^verbatim>\<open>busy\<close> is false
  (\<^verbatim>\<open>onSelect={busy ? undefined : onSelect}\<close>). \<open>SubmitOk\<close> and \<open>SubmitFailed\<close> are the two
  ways the request of \<^verbatim>\<open>enrich\<close> ends. A message is the parsed \<^verbatim>\<open>evt.data\<close>; data that
  does not parse is logged by the listener and changes nothing.
\<close>

datatype event =
    Select "sel_range option"
  | EnrichClick
  | SubmitOk run_ctx string
  | SubmitFailed run_ctx
  | StreamMessage run_ctx json
  | StreamError run_ctx
  | TimeoutFired run_ctx
  | CancelClick

fun step :: "page_state \<Rightarrow> event \<Rightarrow> page_state" where
  "step s (Select sel) = (if busy s then s else onSelect sel s)"
| "step s EnrichClick = enrich_begin s"
| "step s (SubmitOk ctx gid) = enrich_opened ctx gid s"
| "step s (SubmitFailed ctx) = enrich_failed ctx s"
| "step s (StreamMessage ctx obj) =
     (if run_no ctx \<in> es_open s then handleEventData ctx obj s else s)"
| "step s (StreamError ctx) = (if run_no ctx \<in> es_open s then es_onerror ctx s else s)"
| "step s (TimeoutFired ctx) =
     (if run_no ctx \<in> timeouts s
      then timeout_callback ctx (s\<lparr>timeouts := timeouts s - {run_no ctx}\<rparr>) else s)"
| "step s CancelClick = cancelEnrichment s"

text \<open>The states a sequence of events leads through, the first being the start.\<close>

fun trace :: "page_state \<Rightarrow> event list \<Rightarrow> page_state list" where
  "trace s [] = [s]"
| "trace s (e # es) = s # trace (step s e) es"

text \<open>The events raised by the callbacks of the run \<open>ctx\<close>, and the cancel button.\<close>

fun of_run :: "run_ctx \<Rightarrow> event \<Rightarrow> bool" where
  "of_run ctx (Select sel) = False"
| "of_run ctx EnrichClick = False"
| "of_run ctx (SubmitOk c gid) = (c = ctx)"
| "of_run ctx (SubmitFailed c) = (c = ctx)"
| "of_run ctx (StreamMessage c obj) = (c = ctx)"
| "of_run ctx (StreamError c) = (c = ctx)"
| "of_run ctx (TimeoutFired c) = (c = ctx)"
| "of_run ctx CancelClick = True"


text \<open>
  The state \<^verbatim>\<open>Page\<close> starts in: the sample sheet of \<^verbatim>\<open>useState<Cell[][]>\<close>, nothing
  selected, nothing pending.
\<close>

definition text_cell :: "string \<Rightarrow> cell option" where
  "text_cell v = Some \<lparr>cell_value = JStr v, readOnly = None, className = None\<rparr>"

definition initial_sheet :: sheet where
  "initial_sheet =
     [text_cell ''Company'', text_cell ''Stage'', text_cell ''Employee Count''] #
     map (\<lambda>name. [text_cell name, text_cell [], text_cell []])
       [''Mintlify'', ''Etched'', ''LangChain'', ''Mixpanel'', ''Octolane AI'', ''Cognition AI'',
        ''Mercor'', ''Browserbase'', ''Supabase'', ''Martian'']"

definition initial_page :: page_state where
  "initial_page =
     \<lparr>sheet_data = initial_sheet, range_sel = None, pending = {}, busy = False,
      successCount = 0, errorCount = 0, currentTaskGroupId = None, esRef = None,
      es_open = {}, timeouts = {}\<rparr>"

section \<open>The API route (\<^verbatim>\<open>app/api/parallel/route.ts\<close>)\<close>

subsection \<open>\<^verbatim>\<open>POST\<close>: the output schema and the \<^verbatim>\<open>run_map\<close>\<close>

text \<open>
  A row of the request body:
  \<^verbatim>\<open>{ row: number; context: Record<string, unknown>; targetHeaders: string[]; targetCols: number[] }\<close>
\<close>

record row_spec = RunMapEntry +
  row_context :: "(string \<times> json) list"

text \<open>
  \<^verbatim>\<open>const buildExplicitSchema = (targetHeaders: string[]) => ({
    type: 'json',
    json_schema: {
      type: 'object',
      properties: Object.fromEntries(targetHeaders.map(h => [h, {
        type: 'string',
        description: `Value for ${h} column. Return null if not found.`
      }])),
      required: targetHeaders,
      additionalProperties: false
    }
  });\<close>
\<close>

record property_schema =
  property_type :: string
  description :: string

record json_schema =
  schema_type :: string
  properties :: "(string \<times> property_schema) list"
  required :: "string list"
  additionalProperties :: bool

record output_schema =
  output_type :: string
  output_json_schema :: json_schema

definition buildExplicitSchema :: "string list \<Rightarrow> output_schema" where
  "buildExplicitSchema ths =
     \<lparr>output_type = ''json'',
      output_json_schema =
        \<lparr>schema_type = ''object'',
         properties =
           fromEntries
             (map (\<lambda>h. (h, \<lparr>property_type = ''string'',
                               description = ''Value for '' @ h @ '' column. Return null if not found.''\<rparr>))
                ths),
         required = ths,
         additionalProperties = False\<rparr>\<rparr>"

text \<open>
  One element of \<^verbatim>\<open>inputs\<close>:
  \<^verbatim>\<open>rows.map((r, index) => ({
    input: buildPrompt(r.context, r.targetHeaders),
    task_spec: { output_schema: buildExplicitSchema(r.targetHeaders) },
    processor,
    metadata: { row: r.row, index }
  }))\<close>
  The prompt is built by \<^verbatim>\<open>buildPrompt\<close> from the row's context and target headers
  with \<^verbatim>\<open>JSON.stringify\<close>; it is passed in as the function \<open>prompt\<close>.
\<close>

record run_input =
  input_prompt :: string
  task_output_schema :: output_schema
  input_processor :: string
  metadata_row :: int
  metadata_index :: nat

definition inputs :: "((string \<times> json) list \<Rightarrow> string list \<Rightarrow> string) \<Rightarrow> string \<Rightarrow> row_spec list \<Rightarrow> run_input list" where
  "inputs prompt processor rows =
     map (\<lambda>(index, r).
            \<lparr>input_prompt = prompt (row_context r) (targetHeaders r),
             task_output_schema = buildExplicitSchema (targetHeaders r),
             input_processor = processor,
             metadata_row = row r,
             metadata_index = index\<rparr>)
       (enumerate 0 rows)"

text \<open>
  \<^verbatim>\<open>const run_map = Object.fromEntries(
    run_ids.map((rid, i) => rid && rows[i] ? [rid, {
      row: rows[i].row, targetCols: rows[i].targetCols, targetHeaders: rows[i].targetHeaders
    }] : []).filter(Boolean)
  );\<close>
  An element of \<^verbatim>\<open>run_ids\<close> is a string, or \<open>None\<close> for \<^verbatim>\<open>null\<close>. The mapped array
  holds a pair \<^verbatim>\<open>[rid, entry]\<close> (\<open>Some\<close>) or the empty array \<^verbatim>\<open>[]\<close> (\<open>None\<close>).
\<close>

definition run_entry :: "row_spec \<Rightarrow> RunMapEntry" where
  "run_entry r = \<lparr>row = row r, targetCols = targetCols r, targetHeaders = targetHeaders r\<rparr>"

definition run_pair :: "row_spec list \<Rightarrow> nat \<times> string option \<Rightarrow> (string \<times> RunMapEntry) option" where
  "run_pair rows ir =
     (case snd ir of
        None \<Rightarrow> None
      | Some rid \<Rightarrow>
          if rid \<noteq> [] \<and> fst ir < length rows then Some (rid, run_entry (rows ! fst ir)) else None)"

text \<open>\<^verbatim>\<open>Boolean(x)\<close> of an array, empty or not, is \<^verbatim>\<open>true\<close>.\<close>

definition array_truthy :: "(string \<times> RunMapEntry) option \<Rightarrow> bool" where
  "array_truthy e = True"

text \<open>
  What \<^verbatim>\<open>Object.fromEntries\<close> reads from an element: key and value of a pair; of the
  empty array the key \<^verbatim>\<open>undefined\<close>, which names the property \<^verbatim>\<open>"undefined"\<close>, and the
  value \<^verbatim>\<open>undefined\<close>.
\<close>

definition entry_key_value :: "(string \<times> RunMapEntry) option \<Rightarrow> string \<times> RunMapEntry option" where
  "entry_key_value e = (case e of None \<Rightarrow> (''undefined'', None) | Some (k, v) \<Rightarrow> (k, Some v))"

definition run_map_object :: "string option list \<Rightarrow> row_spec list \<Rightarrow> (string \<times> RunMapEntry option) list" where
  "run_map_object run_ids rows =
     fromEntries
       (map entry_key_value (filter array_truthy (map (run_pair rows) (enumerate 0 run_ids))))"

text \<open>
  \<^verbatim>\<open>JSON.stringify\<close> leaves out a property whose value is \<^verbatim>\<open>undefined\<close>; the page reads
  the object back with \<^verbatim>\<open>res.json()\<close>.
\<close>

definition defined_properties :: "(string \<times> 'v option) list \<Rightarrow> (string \<times> 'v) list" where
  "defined_properties obj = List.map_filter (\<lambda>(k, v). map_option (Pair k) v) obj"

definition response_run_map :: "string option list \<Rightarrow> row_spec list \<Rightarrow> (string \<times> RunMapEntry) list" where
  "response_run_map run_ids rows = defined_properties (run_map_object run_ids rows)"


subsection \<open>\<^verbatim>\<open>GET\<close>: the event stream proxy\<close>

definition nl :: char where
  "nl = CHR 0x0A"


fun split_lines :: "string \<Rightarrow> string \<Rightarrow> string list" where
  "split_lines acc [] = [rev acc]"
| "split_lines acc (c # cs) =
     (if c = nl then rev acc # split_lines [] cs else split_lines (c # acc) cs)"

definition startsWith :: "string \<Rightarrow> string \<Rightarrow> bool" where
  "startsWith s p = (take (length p) s = p)"

text \<open>
  What the route takes from outside: \<^verbatim>\<open>JSON.parse\<close> (\<open>None\<close> where it throws),
  \<^verbatim>\<open>JSON.stringify\<close>, the answer of \<^verbatim>\<open>apiFetchJson\<close> for the result of a run, given the
  number of fetches made before and the run id (\<open>None\<close> where it throws), and the number
  of chunks the consumer takes before it goes away (\<open>None\<close>: it stays), after which
  \<^verbatim>\<open>controller.enqueue\<close> throws.
\<close>

record sse_env =
  json_parse :: "string \<Rightarrow> json option"
  json_stringify :: "json \<Rightarrow> string"
  run_result :: "nat \<Rightarrow> json \<Rightarrow> json option"
  consumer_takes :: "nat option"

text \<open>
  The variables of \<^verbatim>\<open>start(controller)\<close>, with the chunks enqueued so far and the run
  ids \<^verbatim>\<open>fetchRunResult\<close> was called with.
\<close>

record sse_state =
  enqueued :: "string list"
  isControllerClosed :: bool
  shouldExit :: bool
  fetches :: "json list"

definition controller_enqueue :: "sse_env \<Rightarrow> string \<Rightarrow> sse_state \<Rightarrow> sse_state option" where
  "controller_enqueue env chunk st =
     (case consumer_takes env of
        None \<Rightarrow> Some (st\<lparr>enqueued := enqueued st @ [chunk]\<rparr>)
      | Some n \<Rightarrow>
          if n \<le> length (enqueued st) then None
          else Some (st\<lparr>enqueued := enqueued st @ [chunk]\<rparr>))"

text \<open>
  \<^verbatim>\<open>const safeEnqueue = (data: string): boolean => {
    if (isControllerClosed) return false;
    try { controller.enqueue(encoder.encode(data)); return true; }
    catch { ...; isControllerClosed = true; return false; }
  };\<close>
\<close>

definition safeEnqueue :: "sse_env \<Rightarrow> string \<Rightarrow> sse_state \<Rightarrow> sse_state \<times> bool" where
  "safeEnqueue env chunk st =
     (if isControllerClosed st then (st, False)
      else case controller_enqueue env chunk st of
             Some st' \<Rightarrow> (st', True)
           | None \<Rightarrow> (st\<lparr>isControllerClosed := True\<rparr>, False))"

text \<open>
  \<^verbatim>\<open>async function fetchRunResult(taskgroup_id, run_id) {
    try { return await apiFetchJson(`/v1/tasks/runs/${run_id}/result`, { method: 'GET' }); }
    catch (err) { ...; return null; }
  }\<close>
\<close>

definition fetchRunResult :: "sse_env \<Rightarrow> nat \<Rightarrow> json \<Rightarrow> json" where
  "fetchRunResult env n run_id = (case run_result env n run_id of None \<Rightarrow> JNull | Some v \<Rightarrow> v)"

text \<open>
  \<^verbatim>\<open>let eventType = '', eventId = '', eventData: unknown = null;
  for (const line of lines) {
    if (line.startsWith('event: ')) eventType = line.slice(7);
    else if (line.startsWith('id: ')) eventId = line.slice(4);
    else if (line.startsWith('data: ')) {
      try { eventData = JSON.parse(line.slice(6)); } catch { eventData = line.slice(6); }
    }
  }\<close>
\<close>

record frame_fields =
  eventType :: string
  eventId :: string
  eventData :: json

definition parse_line :: "sse_env \<Rightarrow> frame_fields \<Rightarrow> string \<Rightarrow> frame_fields" where
  "parse_line env f line =
     (if startsWith line ''event: '' then f\<lparr>eventType := drop 7 line\<rparr>
      else if startsWith line ''id: '' then f\<lparr>eventId := drop 4 line\<rparr>
      else if startsWith line ''data: '' then
        f\<lparr>eventData := (case json_parse env (drop 6 line) of
                           Some v \<Rightarrow> v
                         | None \<Rightarrow> JStr (drop 6 line))\<rparr>
      else f)"

definition parse_frame :: "sse_env \<Rightarrow> string \<Rightarrow> frame_fields" where
  "parse_frame env eventStr =
     foldl (parse_line env) \<lparr>eventType = [], eventId = [], eventData = JNull\<rparr>
       (split_lines [] eventStr)"

text \<open>
  The test that sends a frame to the result fetch:
  \<^verbatim>\<open>eventType === 'task_run.state' && data?.type === 'task_run.state' &&
  data?.run?.status === 'completed' && data?.run?.run_id && !data?.output\<close>
\<close>

definition completed_without_output :: "frame_fields \<Rightarrow> bool" where
  "completed_without_output f =
     (let d = Some (eventData f); run = get_prop d ''run''
      in eventType f = ''task_run.state'' \<and>
         get_prop d ''type'' = Some (JStr ''task_run.state'') \<and>
         get_prop run ''status'' = Some (JStr ''completed'') \<and>
         truthy_opt (get_prop run ''run_id'') \<and>
         \<not> truthy_opt (get_prop d ''output''))"

text \<open>
  \<^verbatim>\<open>eventType === 'task_group_status' && data?.status?.is_active === false\<close>
\<close>

definition group_inactive_frame :: "frame_fields \<Rightarrow> bool" where
  "group_inactive_frame f =
     (eventType f = ''task_group_status'' \<and>
      get_prop (get_prop (Some (eventData f)) ''status'') ''is_active'' = Some (JBool False))"

text \<open>
  \<^verbatim>\<open>const enrichedData = { ...data, output: result.output };
  let enrichedEvent = `event: ${eventType}\n`;
  if (eventId) enrichedEvent += `id: ${eventId}\n`;
  enrichedEvent += `data: ${JSON.stringify(enrichedData)}\n\n`;\<close>
  The data of a frame that passed the test above is an object.
\<close>

definition enrichedData :: "json \<Rightarrow> json \<Rightarrow> json" where
  "enrichedData d out =
     (case d of JObj kvs \<Rightarrow> JObj (AList.update ''output'' out kvs) | _ \<Rightarrow> JObj [(''output'', out)])"

definition enrichedEvent :: "sse_env \<Rightarrow> frame_fields \<Rightarrow> json \<Rightarrow> string" where
  "enrichedEvent env f out =
     ''event: '' @ eventType f @ [nl] @
     (if eventId f \<noteq> [] then ''id: '' @ eventId f @ [nl] else []) @
     ''data: '' @ json_stringify env (enrichedData (eventData f) out) @ [nl, nl]"

text \<open>
  One turn of \<^verbatim>\<open>for (const eventStr of events)\<close>. The boolean is false where the body
  executes \<^verbatim>\<open>return\<close>, which leaves \<^verbatim>\<open>start\<close>.
\<close>

definition process_event :: "sse_env \<Rightarrow> string \<Rightarrow> sse_state \<Rightarrow> sse_state \<times> bool" where
  "process_event env eventStr st =
     (if trim eventStr = [] then (st, True)
      else
        (let f = parse_frame env eventStr in
         if completed_without_output f then
           (case get_prop (get_prop (Some (eventData f)) ''run'') ''run_id'' of
              None \<Rightarrow> (st, True)
            | Some runId \<Rightarrow>
                (let result = fetchRunResult env (length (fetches st)) runId;
                     st1 = st\<lparr>fetches := fetches st @ [runId]\<rparr>
                 in case get_prop (Some result) ''output'' of
                      Some out \<Rightarrow>
                        if truthy out then safeEnqueue env (enrichedEvent env f out) st1
                        else safeEnqueue env (eventStr @ [nl, nl]) st1
                    | None \<Rightarrow> safeEnqueue env (eventStr @ [nl, nl]) st1))
         else if group_inactive_frame f then
           (if \<not> isControllerClosed st then
              (case controller_enqueue env (eventStr @ [nl, nl]) st of
                 Some st' \<Rightarrow> (st'\<lparr>shouldExit := True\<rparr>, True)
               | None \<Rightarrow> (st\<lparr>isControllerClosed := True\<rparr>, False))
            else (st\<lparr>shouldExit := True\<rparr>, True))
         else safeEnqueue env (eventStr @ [nl, nl]) st))"





text \<open>
  What \<^verbatim>\<open>await reader.read()\<close> gives, read after read: a chunk of text, or an
  exception; the end of the list is \<^verbatim>\<open>done\<close>.
  \<^verbatim>\<open>while (true) {
    const { done, value } = await reader.read();
    if (done) break;
    buffer += decoder.decode(value, { stream: true });
    const events = buffer.split('\n\n');
    buffer = events.pop() || '';
    for (const eventStr of events) { ... }
    if (shouldExit && !isControllerClosed) break;
  }\<close>
\<close>

datatype read_result = Chunk string | ReadThrows


text \<open>
  The answer of the upstream request, and \<^verbatim>\<open>start\<close>: the keep-alive comment is enqueued
  first, while the consumer is certainly there.
\<close>

datatype upstream = FetchThrows | StatusNotOk | NoBody | Body "read_result list"




section \<open>Notions used to state the properties\<close>

text \<open>A payload that \<^verbatim>\<open>applyRowResult\<close> reads keys from: an object that is not an array.\<close>

definition is_plain_object :: "json \<Rightarrow> bool" where
  "is_plain_object v = (case v of JObj kvs \<Rightarrow> True | _ \<Rightarrow> False)"

text \<open>
  \<open>i\<close> is the rightmost header whose normal form is that of the key \<open>k\<close>; \<open>j\<close> is the
  leftmost target header whose normal form is that of \<open>k\<close>.
\<close>

definition rightmost_norm :: "string list \<Rightarrow> string \<Rightarrow> nat \<Rightarrow> bool" where
  "rightmost_norm hs k i =
     (i < length hs \<and> norm (hs ! i) = norm k \<and> norm k \<notin> norm ` set (drop (Suc i) hs))"

definition first_norm :: "string list \<Rightarrow> string \<Rightarrow> nat \<Rightarrow> bool" where
  "first_norm ths k j =
     (j < length ths \<and> norm (ths ! j) = norm k \<and> norm k \<notin> norm ` set (take j ths))"

text \<open>
  The first step of key resolution in the words of the specification, "exact header match":
  the column whose header is the key itself.
\<close>

definition exact_header_match :: "string list \<Rightarrow> string \<Rightarrow> int option" where
  "exact_header_match hs k = map_option int (findIndex (\<lambda>h. h = k) hs)"

text \<open>An event that reports a failed job, the run id it carries, and the plainest such event.\<close>

definition reports_failed :: "json \<Rightarrow> bool" where
  "reports_failed obj =
     ((get_prop (Some obj) ''type'' = Some (JStr ''task_run.state'') \<or>
       get_prop (Some obj) ''type'' = Some (JStr ''task_run'')) \<and>
      get_prop (get_prop (Some obj) ''run'') ''status'' = Some (JStr ''failed''))"

definition event_run_id :: "json \<Rightarrow> json option" where
  "event_run_id obj = get_prop (get_prop (Some obj) ''run'') ''run_id''"

definition failed_event :: "string \<Rightarrow> json" where
  "failed_event rid =
     JObj [(''type'', JStr ''task_run.state''),
           (''run'', JObj [(''run_id'', JStr rid), (''status'', JStr ''failed'')])]"

text \<open>
  The scenario of the specification: rows 1 to 3 and columns 1 to 2 of the sample sheet
  are selected, three jobs are submitted, one completes with two matching keys, one
  fails, and the group goes inactive before the third reports.
\<close>

definition example_range :: sel_range where
  "example_range = \<lparr>range_start = (1, 1), range_end = (3, 2)\<rparr>"

definition example_selected :: page_state where
  "example_selected = initial_page\<lparr>range_sel := Some example_range\<rparr>"

definition example_run :: run_ctx where
  "example_run =
     \<lparr>run_no = 1, selectedCells = selected_cells example_range,
      run_map =
        [''trun_1'' \<mapsto> \<lparr>row = 1, targetCols = [1, 2], targetHeaders = [''Stage'', ''Employee Count'']\<rparr>,
         ''trun_2'' \<mapsto> \<lparr>row = 2, targetCols = [1, 2], targetHeaders = [''Stage'', ''Employee Count'']\<rparr>,
         ''trun_3'' \<mapsto> \<lparr>row = 3, targetCols = [1, 2], targetHeaders = [''Stage'', ''Employee Count'']\<rparr>],
      header_index = headerIndex (headers_of initial_sheet)\<rparr>"

definition example_running :: page_state where
  "example_running =
     initial_page\<lparr>pending := {(1, 1), (1, 2), (2, 1), (2, 2), (3, 1), (3, 2)}, busy := True,
                  currentTaskGroupId := Some ''tgrp_1'', esRef := Some 1, es_open := {1},
                  timeouts := {1}\<rparr>"

definition completed_event :: "string \<Rightarrow> json \<Rightarrow> json" where
  "completed_event rid output =
     JObj [(''type'', JStr ''task_run.state''),
           (''run'', JObj [(''run_id'', JStr rid), (''status'', JStr ''completed'')]),
           (''output'', output)]"

definition inactive_event :: json where
  "inactive_event =
     JObj [(''type'', JStr ''task_group_status''),
           (''status'', JObj [(''is_active'', JBool False)])]"

definition example_events :: "event list" where
  "example_events =
     [SubmitOk example_run ''tgrp_1'',
      StreamMessage example_run
        (completed_event ''trun_1''
           (JObj [(''content'', JObj [(''Stage'', JStr ''Series B''), (''employee count'', JNum 50)])])),
      StreamMessage example_run (failed_event ''trun_2''),
      StreamMessage example_run inactive_event]"

text \<open>A second run, over one cell of row 5, started after the first was cancelled.\<close>

definition second_range :: sel_range where
  "second_range = \<lparr>range_start = (5, 1), range_end = (5, 1)\<rparr>"

definition second_run :: run_ctx where
  "second_run =
     \<lparr>run_no = 2, selectedCells = selected_cells second_range,
      run_map = [''trun_5'' \<mapsto> \<lparr>row = 5, targetCols = [1], targetHeaders = [''Stage'']\<rparr>],
      header_index = headerIndex (headers_of initial_sheet)\<rparr>"

definition cancel_then_rerun :: "event list" where
  "cancel_then_rerun =
     [Select (Some example_range), EnrichClick, SubmitOk example_run ''tgrp_1'', CancelClick,
      Select (Some second_range), EnrichClick, SubmitOk second_run ''tgrp_2'']"

text \<open>
  The page after the first run was cancelled and the cell of row 5 selected: idle, with
  the timer of the first run still armed.
\<close>

definition idle_again :: page_state where
  "idle_again = last (trace initial_page (take 5 cancel_then_rerun))"

text \<open>The sample page with the second header cell missing, and the example selection.\<close>

definition holed_page :: page_state where
  "holed_page =
     initial_page\<lparr>sheet_data := [text_cell ''Company'', None, text_cell ''Employee Count''] #
                                  tl initial_sheet,
                  range_sel := Some example_range\<rparr>"

text \<open>
  What holds of the pending set throughout a run: it lies within the cells the run
  selected, and it is empty whenever \<^verbatim>\<open>busy\<close> is false.
\<close>

definition run_inv :: "run_ctx \<Rightarrow> page_state \<Rightarrow> bool" where
  "run_inv ctx s = (pending s \<subseteq> set (selectedCells ctx) \<and> (\<not> busy s \<longrightarrow> pending s = {}))"

text \<open>
  The id \<open>k\<close> is returned at position \<open>i\<close>, is not empty, and a row was submitted at
  that position.
\<close>

definition paired_at :: "string option list \<Rightarrow> row_spec list \<Rightarrow> string \<Rightarrow> nat \<Rightarrow> bool" where
  "paired_at run_ids rows k i =
     (i < length run_ids \<and> i < length rows \<and> run_ids ! i = Some k \<and> k \<noteq> [])"

definition example_row :: "int \<Rightarrow> row_spec" where
  "example_row r =
     \<lparr>row = r, targetCols = [1, 2], targetHeaders = [''Stage'', ''Employee Count''],
      row_context = []\<rparr>"

text \<open>
  Of the output schema of a submitted job: its type, the set of its property names,
  whether each name occurs once, its required keys, and whether further properties are
  allowed.
\<close>

definition schema_summary :: "run_input \<Rightarrow> string \<times> string set \<times> bool \<times> string list \<times> bool" where
  "schema_summary x =
     (let js = output_json_schema (task_output_schema x)
      in (schema_type js, set (map fst (properties js)), distinct (map fst (properties js)),
          required js, additionalProperties js))"


definition example_trace :: "page_state list" where
  "example_trace = trace (step example_selected EnrichClick) example_events"



definition needs_backfill :: "sse_env \<Rightarrow> string \<Rightarrow> bool" where
  "needs_backfill env eventStr =
     (trim eventStr \<noteq> [] \<and> completed_without_output (parse_frame env eventStr))"














section \<open>Lemmas on the JavaScript operations\<close>

lemma fromEntries_snoc: "fromEntries (es @ [(k, v)]) = AList.update k v (fromEntries es)"
  by (simp add: fromEntries_def)

lemma fromEntries_Nil: "fromEntries [] = []"
  by (simp add: fromEntries_def)

lemma map_of_fromEntries_snoc:
  "map_of (fromEntries (es @ [(k, v)])) = (map_of (fromEntries es))(k \<mapsto> v)"
  by (simp add: fromEntries_snoc update_conv')

lemma distinct_fromEntries: "distinct (map fst (fromEntries es))"
proof (induction es rule: rev_induct)
  case Nil
  then show ?case by (simp add: fromEntries_Nil)
next
  case (snoc x es)
  then show ?case by (cases x) (simp add: fromEntries_snoc distinct_update)
qed

lemma keys_fromEntries: "set (map fst (fromEntries es)) = set (map fst es)"
proof (induction es rule: rev_induct)
  case Nil
  then show ?case by (simp add: fromEntries_Nil)
next
  case (snoc x es)
  have "fst ` set (fromEntries (es @ [x])) = {fst x} \<union> fst ` set (fromEntries es)"
    by (cases x) (simp add: fromEntries_snoc dom_update)
  with snoc show ?case by auto
qed

lemma map_of_defined_properties:
  "distinct (map fst obj) \<Longrightarrow>
   map_of (defined_properties obj) k = (case map_of obj k of Some (Some v) \<Rightarrow> Some v | _ \<Rightarrow> None)"
proof (induction obj)
  case Nil
  then show ?case by (simp add: defined_properties_def List.map_filter_simps)
next
  case (Cons a obj)
  obtain k' v' where a: "a = (k', v')" by (cases a)
  from Cons.prems a have nk: "k' \<notin> fst ` set obj" and d: "distinct (map fst obj)" by auto
  have ih: "map_of (defined_properties obj) k = (case map_of obj k of Some (Some v) \<Rightarrow> Some v | _ \<Rightarrow> None)"
    using Cons.IH d by simp
  have none: "map_of obj k' = None" using nk by (simp add: map_of_eq_None_iff)
  show ?case
  proof (cases v')
    case None
    then have "defined_properties (a # obj) = defined_properties obj"
      using a by (simp add: defined_properties_def List.map_filter_simps)
    with ih none None a show ?thesis by (cases "k = k'") simp_all
  next
    case (Some e)
    then have "defined_properties (a # obj) = (k', e) # defined_properties obj"
      using a by (simp add: defined_properties_def List.map_filter_simps)
    with ih Some a show ?thesis by (cases "k = k'") simp_all
  qed
qed

lemma distinct_defined_properties:
  "distinct (map fst obj) \<Longrightarrow> distinct (map fst (defined_properties obj))"
proof (induction obj)
  case Nil
  then show ?case by (simp add: defined_properties_def List.map_filter_simps)
next
  case (Cons a obj)
  obtain k' v' where a: "a = (k', v')" by (cases a)
  have sub: "fst ` set (defined_properties obj) \<subseteq> fst ` set obj"
    by (auto simp: defined_properties_def List.map_filter_def image_iff split: option.splits)
       (metis fst_conv)
  show ?case
  proof (cases v')
    case None
    then have "defined_properties (a # obj) = defined_properties obj"
      using a by (simp add: defined_properties_def List.map_filter_simps)
    with Cons show ?thesis by simp
  next
    case (Some e)
    then have "defined_properties (a # obj) = (k', e) # defined_properties obj"
      using a by (simp add: defined_properties_def List.map_filter_simps)
    with Cons a sub show ?thesis by auto
  qed
qed

lemma run_map_object_snoc:
  "run_map_object (ids @ [x]) rows =
     (case entry_key_value (run_pair rows (length ids, x)) of
        (k, v) \<Rightarrow> AList.update k v (run_map_object ids rows))"
  by (simp add: run_map_object_def enumerate_append_eq array_truthy_def fromEntries_def
      split: prod.splits)

lemma run_map_object_Nil: "run_map_object [] rows = []"
  by (simp add: run_map_object_def fromEntries_def)

lemma paired_at_snoc:
  "paired_at (ids @ [x]) rows k i \<longleftrightarrow>
     paired_at ids rows k i \<or> (i = length ids \<and> i < length rows \<and> x = Some k \<and> k \<noteq> [])"
  by (cases "i < length ids") (auto simp: paired_at_def nth_append)

lemma paired_at_bound: "paired_at ids rows k i \<Longrightarrow> i < length ids"
  by (simp add: paired_at_def)

lemma run_map_object_lookup:
  assumes "k \<noteq> ''undefined''"
  shows "map_of (run_map_object ids rows) k =
           (if \<exists>i. paired_at ids rows k i
            then Some (Some (run_entry (rows ! (GREATEST i. paired_at ids rows k i))))
            else None)"
proof (induction ids rule: rev_induct)
  case Nil
  then show ?case by (simp add: run_map_object_Nil paired_at_def)
next
  case (snoc x ids)
  let ?n = "length ids"
  show ?case
  proof (cases "?n < length rows \<and> x = Some k \<and> k \<noteq> []")
    case True
    then have p: "paired_at (ids @ [x]) rows k ?n" by (simp add: paired_at_snoc)
    have "\<And>j. paired_at (ids @ [x]) rows k j \<Longrightarrow> j \<le> ?n"
      using paired_at_bound[of "ids @ [x]" rows k] by fastforce
    with p have g: "(GREATEST i. paired_at (ids @ [x]) rows k i) = ?n"
      by (intro Greatest_equality) auto
    from True have "map_of (run_map_object (ids @ [x]) rows) k = Some (Some (run_entry (rows ! ?n)))"
      by (simp add: run_map_object_snoc run_pair_def entry_key_value_def update_conv')
    with p g show ?thesis by auto
  next
    case False
    then have eq: "\<And>i. paired_at (ids @ [x]) rows k i \<longleftrightarrow> paired_at ids rows k i"
      by (auto simp: paired_at_snoc)
    from False assms have "map_of (run_map_object (ids @ [x]) rows) k = map_of (run_map_object ids rows) k"
      by (auto simp: run_map_object_snoc run_pair_def entry_key_value_def update_conv'
          split: option.splits)
    with snoc eq show ?thesis by simp
  qed
qed


lemma paired_at_greatest:
  assumes "paired_at ids rows k i0"
  shows "paired_at ids rows k (GREATEST i. paired_at ids rows k i)"
    and "\<And>j. paired_at ids rows k j \<Longrightarrow> j \<le> (GREATEST i. paired_at ids rows k i)"
proof -
  have b: "\<And>y. paired_at ids rows k y \<Longrightarrow> y \<le> length ids"
    by (simp add: paired_at_def)
  from assms show "paired_at ids rows k (GREATEST i. paired_at ids rows k i)"
    by (rule GreatestI_nat) (rule b)
  fix j assume "paired_at ids rows k j"
  then show "j \<le> (GREATEST i. paired_at ids rows k i)"
    by (rule Greatest_le_nat) (rule b)
qed

lemma headerIndex_Nil: "headerIndex [] = Map.empty"
  by (simp add: headerIndex_def)

lemma headerIndex_snoc:
  "headerIndex (hs @ [h]) = (headerIndex hs)(norm h \<mapsto> int (length hs))"
  by (simp add: headerIndex_def enumerate_append_eq)

lemma headerIndex_None: "headerIndex hs k = None \<longleftrightarrow> k \<notin> norm ` set hs"
  by (induction hs rule: rev_induct) (auto simp: headerIndex_snoc headerIndex_Nil)

lemma rightmost_norm_snoc:
  "rightmost_norm (hs @ [h]) k i \<longleftrightarrow>
     (if norm h = norm k then i = length hs else rightmost_norm hs k i)"
  by (cases "i < length hs") (auto simp: rightmost_norm_def nth_append less_Suc_eq)

lemma headerIndex_rightmost:
  "rightmost_norm hs k i \<Longrightarrow> headerIndex hs (norm k) = Some (int i)"
proof (induction hs rule: rev_induct)
  case Nil
  then show ?case by (simp add: rightmost_norm_def)
next
  case (snoc h hs)
  then show ?case
    by (auto simp: headerIndex_snoc rightmost_norm_snoc split: if_splits)
qed

lemma findIndex_first:
  "j < length xs \<Longrightarrow> p (xs ! j) \<Longrightarrow> \<forall>x \<in> set (take j xs). \<not> p x \<Longrightarrow> findIndex p xs = Some j"
proof (induction xs arbitrary: j)
  case Nil
  then show ?case by simp
next
  case (Cons x xs)
  show ?case
  proof (cases j)
    case 0
    with Cons.prems show ?thesis by simp
  next
    case (Suc m)
    with Cons.prems have "findIndex p xs = Some m" and "\<not> p x"
      by (auto intro: Cons.IH)
    with Suc show ?thesis by simp
  qed
qed

lemma findIndex_None: "findIndex p xs = None \<longleftrightarrow> (\<forall>x \<in> set xs. \<not> p x)"
  by (induction xs) (auto split: option.splits)

lemma findIndex_first_norm:
  "first_norm ths k j \<Longrightarrow> findIndex (\<lambda>th. norm th = norm k) ths = Some j"
  unfolding first_norm_def by (rule findIndex_first) (auto simp: image_iff)

lemma pending_clearPending: "pending (clearPending cells s) = pending s - set cells"
  by (simp add: clearPending_def)

section \<open>Results that are not objects\<close>

text \<open>
  Claim C10. When the output handed to \<^verbatim>\<open>applyRowResult\<close> is not a plain object (it is
  \<^verbatim>\<open>null\<close>, a boolean, a number, a string or an array), the call leaves the page as it
  was: no cell is written, nothing leaves the pending set, and the success count stays.
  The function has no failing branch.
\<close>

theorem non_object_output_ignored:
  "\<not> is_plain_object content \<Longrightarrow> applyRowResult hi r content ths tcs s = s"
  by (cases content) (simp_all add: is_plain_object_def applyRowResult_def content_entries_def)

theorem non_object_output_ignored_witness:
  "\<not> is_plain_object (JArr [JStr ''Seed'', JNum 50]) \<and>
   applyRowResult (headerIndex (headers_of initial_sheet)) 1 (JArr [JStr ''Seed'', JNum 50])
     (Some [''Stage'', ''Employee Count'']) (Some [1, 2]) example_running = example_running"
proof -
  have h: "\<not> is_plain_object (JArr [JStr ''Seed'', JNum 50])"
    by (simp add: is_plain_object_def)
  from h show ?thesis
    by (rule conjI) (rule non_object_output_ignored[OF h])
qed

section \<open>Resolving an output key to a column\<close>

text \<open>
  Claim C4, as the code has it. The column of an output key is found through normal
  forms only: the key goes to the rightmost header with its normal form (so the key
  \<^verbatim>\<open>Employee Count\<close> fills the header \<^verbatim>\<open>employee_count\<close>); when no header has it, to
  the entry of the target columns at the position of the leftmost target header with its
  normal form; and when neither has it, to no column. A key with no column, or with a
  column outside the header row, leaves the page as it was.
\<close>

theorem resolve_col_by_normal_form:
  "(rightmost_norm hs k i \<longrightarrow> resolve_col (headerIndex hs) ths tCols k = Some (int i)) \<and>
   (norm k \<notin> norm ` set hs \<and> first_norm tgt k j \<longrightarrow>
      resolve_col (headerIndex hs) (Some tgt) tCols k = js_nth tCols (int j)) \<and>
   (norm k \<notin> norm ` set hs \<and> norm k \<notin> norm ` set tgt \<longrightarrow>
      resolve_col (headerIndex hs) (Some tgt) tCols k = None \<and>
      resolve_col (headerIndex hs) None tCols k = None) \<and>
   (resolve_col hi ths tCols k = None \<longrightarrow> apply_entry hi r ths tCols s (k, v) = s) \<and>
   (resolve_col hi ths tCols k = Some c \<and> (c < 0 \<or> int (header_len (sheet_data s)) \<le> c) \<longrightarrow>
      apply_entry hi r ths tCols s (k, v) = s)"
proof (intro conjI impI)
  assume "rightmost_norm hs k i"
  then show "resolve_col (headerIndex hs) ths tCols k = Some (int i)"
    by (simp add: resolve_col_def headerIndex_rightmost)
next
  assume a: "norm k \<notin> norm ` set hs \<and> first_norm tgt k j"
  then have n: "headerIndex hs (norm k) = None" by (simp add: headerIndex_None)
  from a have f: "findIndex (\<lambda>th. norm th = norm k) tgt = Some j"
    by (simp add: findIndex_first_norm)
  from a have "tgt \<noteq> []" by (auto simp: first_norm_def)
  then obtain t ts where "tgt = t # ts" by (cases tgt) auto
  with n f show "resolve_col (headerIndex hs) (Some tgt) tCols k = js_nth tCols (int j)"
    by (simp add: resolve_col_def)
next
  assume a: "norm k \<notin> norm ` set hs \<and> norm k \<notin> norm ` set tgt"
  then have n: "headerIndex hs (norm k) = None" by (simp add: headerIndex_None)
  from a have "findIndex (\<lambda>th. norm th = norm k) tgt = None"
    by (auto simp: findIndex_None image_iff)
  with n show "resolve_col (headerIndex hs) (Some tgt) tCols k = None"
    by (cases tgt) (simp_all add: resolve_col_def)
  from n show "resolve_col (headerIndex hs) None tCols k = None"
    by (simp add: resolve_col_def)
next
  assume "resolve_col hi ths tCols k = None"
  then show "apply_entry hi r ths tCols s (k, v) = s"
    by (simp add: apply_entry_def)
next
  assume "resolve_col hi ths tCols k = Some c \<and> (c < 0 \<or> int (header_len (sheet_data s)) \<le> c)"
  then show "apply_entry hi r ths tCols s (k, v) = s"
    by (auto simp: apply_entry_def)
qed

theorem resolve_col_by_normal_form_witness:
  "rightmost_norm [''Company'', ''Stage'', ''employee_count''] ''Employee Count'' 2 \<and>
   resolve_col (headerIndex [''Company'', ''Stage'', ''employee_count''])
     (Some [''Stage'', ''employee_count'']) [1, 2] ''Employee Count'' = Some 2 \<and>
   norm ''Headcount'' \<notin> norm ` set [''Company'', ''Stage''] \<and>
   first_norm [''Stage'', ''head count''] ''Headcount'' 1 \<and>
   resolve_col (headerIndex [''Company'', ''Stage'']) (Some [''Stage'', ''head count'']) [1, 2]
     ''Headcount'' = Some 2 \<and>
   norm ''Website'' \<notin> norm ` set [''Stage'', ''head count''] \<and>
   norm ''Website'' \<notin> norm ` set [''Company'', ''Stage''] \<and>
   resolve_col (headerIndex [''Company'', ''Stage'']) (Some [''Stage'', ''head count'']) [1, 2]
     ''Website'' = None \<and>
   apply_entry (headerIndex [''Company'', ''Stage'']) 1 (Some [''Stage'', ''head count'']) [1, 2]
     initial_page (''Website'', JStr ''x'') = initial_page \<and>
   resolve_col (headerIndex [''A'', ''B'', ''C'', ''Website'']) None [] ''website'' = Some 3 \<and>
   (3::int) \<ge> int (header_len (sheet_data initial_page)) \<and>
   apply_entry (headerIndex [''A'', ''B'', ''C'', ''Website'']) 1 None [] initial_page
     (''website'', JStr ''x'') = initial_page"
proof -
  have h1: "rightmost_norm [''Company'', ''Stage'', ''employee_count''] ''Employee Count'' 2"
    by code_simp
  have h2: "norm ''Headcount'' \<notin> norm ` set [''Company'', ''Stage'']"
    by code_simp
  have h3: "first_norm [''Stage'', ''head count''] ''Headcount'' 1"
    by code_simp
  have h4: "norm ''Website'' \<notin> norm ` set [''Stage'', ''head count'']"
    by code_simp
  have h5: "norm ''Website'' \<notin> norm ` set [''Company'', ''Stage'']"
    by code_simp
  have h6: "resolve_col (headerIndex [''A'', ''B'', ''C'', ''Website'']) None [] ''website'' = Some 3"
    by code_simp
  have h7: "(3::int) \<ge> int (header_len (sheet_data initial_page))"
    by code_simp
  note t1 = resolve_col_by_normal_form
    [where hs = "[''Company'', ''Stage'', ''employee_count'']" and k = "''Employee Count''"
       and i = 2 and ths = "Some [''Stage'', ''employee_count'']" and tCols = "[1, 2]"]
  note t2 = resolve_col_by_normal_form
    [where hs = "[''Company'', ''Stage'']" and k = "''Headcount''"
       and tgt = "[''Stage'', ''head count'']" and j = 1 and tCols = "[1, 2]"]
  note t3 = resolve_col_by_normal_form
    [where hs = "[''Company'', ''Stage'']" and k = "''Website''"
       and tgt = "[''Stage'', ''head count'']" and tCols = "[1, 2]"
       and hi = "headerIndex [''Company'', ''Stage'']" and ths = "Some [''Stage'', ''head count'']"
       and r = 1 and s = initial_page and v = "JStr ''x''"]
  note t4 = resolve_col_by_normal_form
    [where hi = "headerIndex [''A'', ''B'', ''C'', ''Website'']" and k = "''website''"
       and ths = None and tCols = "[]" and c = 3 and r = 1 and s = initial_page and v = "JStr ''x''"]
  have c1: "resolve_col (headerIndex [''Company'', ''Stage'', ''employee_count''])
     (Some [''Stage'', ''employee_count'']) [1, 2] ''Employee Count'' = Some 2"
    using t1 h1 by simp
  have c2: "resolve_col (headerIndex [''Company'', ''Stage'']) (Some [''Stage'', ''head count''])
     [1, 2] ''Headcount'' = Some 2"
    using t2 h2 h3 by (simp add: js_nth_def)
  have c3: "resolve_col (headerIndex [''Company'', ''Stage'']) (Some [''Stage'', ''head count''])
     [1, 2] ''Website'' = None"
    using t3 h4 h5 by blast
  have c4: "apply_entry (headerIndex [''Company'', ''Stage'']) 1 (Some [''Stage'', ''head count''])
     [1, 2] initial_page (''Website'', JStr ''x'') = initial_page"
    using t3 c3 by blast
  have c5: "apply_entry (headerIndex [''A'', ''B'', ''C'', ''Website'']) 1 None [] initial_page
     (''website'', JStr ''x'') = initial_page"
    using t4 h6 h7 by blast
  from h1 h2 h3 h4 h5 h6 h7 c1 c2 c3 c4 c5 show ?thesis by blast
qed

text \<open>
  Claim C4 as stated asks for an exact header match first. With the headers
  \<^verbatim>\<open>Employee Count\<close> and \<^verbatim>\<open>employee_count\<close> side by side, the key \<^verbatim>\<open>Employee Count\<close>
  is the header of column 0 and is resolved to column 1.
\<close>

theorem key_resolution_counterexample:
  "exact_header_match [''Employee Count'', ''employee_count''] ''Employee Count'' = Some 0 \<and>
   resolve_col (headerIndex [''Employee Count'', ''employee_count''])
     (Some [''Employee Count'', ''employee_count'']) [0, 1] ''Employee Count'' = Some 1"
  by code_simp

section \<open>Failed jobs\<close>

text \<open>
  Claim C1, as the code has it. Every event that reports a failed job adds one to the
  error count, whether its run id is in the \<^verbatim>\<open>run_map\<close> or not. The cells of the job
  leave the pending set only when the id is found; an unknown or missing id leaves the
  pending set as it was. No cell value and no success count changes either way.
\<close>

theorem failed_event_effect:
  "reports_failed obj \<Longrightarrow>
     errorCount (handleEventData ctx obj s) = errorCount s + 1 \<and>
     successCount (handleEventData ctx obj s) = successCount s \<and>
     sheet_data (handleEventData ctx obj s) = sheet_data s \<and>
     busy (handleEventData ctx obj s) = busy s \<and>
     pending (handleEventData ctx obj s) =
       (case lookup_run ctx (event_run_id obj) of
          None \<Rightarrow> pending s
        | Some meta \<Rightarrow> pending s - Pair (row meta) ` set (targetCols meta))"
  by (auto simp: reports_failed_def event_run_id_def handleEventData_def Let_def
      clearPending_def split: option.splits)

theorem failed_event_effect_witness:
  "reports_failed (failed_event ''trun_2'') \<and>
   (errorCount (handleEventData example_run (failed_event ''trun_2'') example_running) =
      errorCount example_running + 1 \<and>
    successCount (handleEventData example_run (failed_event ''trun_2'') example_running) =
      successCount example_running \<and>
    sheet_data (handleEventData example_run (failed_event ''trun_2'') example_running) =
      sheet_data example_running \<and>
    busy (handleEventData example_run (failed_event ''trun_2'') example_running) =
      busy example_running \<and>
    pending (handleEventData example_run (failed_event ''trun_2'') example_running) =
      (case lookup_run example_run (event_run_id (failed_event ''trun_2'')) of
         None \<Rightarrow> pending example_running
       | Some meta \<Rightarrow> pending example_running - Pair (row meta) ` set (targetCols meta))) \<and>
   pending (handleEventData example_run (failed_event ''trun_2'') example_running) =
     {(1, 1), (1, 2), (3, 1), (3, 2)}"
proof -
  have h: "reports_failed (failed_event ''trun_2'')"
    by code_simp
  have v: "pending (handleEventData example_run (failed_event ''trun_2'') example_running) =
     {(1, 1), (1, 2), (3, 1), (3, 2)}"
    by code_simp
  show ?thesis
    by (intro conjI h v) (rule failed_event_effect[OF h, THEN conjunct1],
        rule failed_event_effect[OF h, THEN conjunct2, THEN conjunct1],
        rule failed_event_effect[OF h, THEN conjunct2, THEN conjunct2, THEN conjunct1],
        rule failed_event_effect[OF h, THEN conjunct2, THEN conjunct2, THEN conjunct2, THEN conjunct1],
        rule failed_event_effect[OF h, THEN conjunct2, THEN conjunct2, THEN conjunct2, THEN conjunct2])
qed

text \<open>
  Claim C1 as stated lets the error count grow only when the id is found. A failed event
  for the id \<^verbatim>\<open>trun_9\<close>, which the \<^verbatim>\<open>run_map\<close> does not hold, takes the error count
  from 0 to 1.
\<close>

theorem failed_event_unknown_id_counterexample:
  "lookup_run example_run (event_run_id (failed_event ''trun_9'')) = None \<and>
   errorCount example_running = 0 \<and>
   errorCount (handleEventData example_run (failed_event ''trun_9'') example_running) = 1"
  by code_simp

section \<open>The \<^verbatim>\<open>run_map\<close> of a submission\<close>

lemma response_lookup:
  assumes "k \<noteq> ''undefined''"
  shows "(map_of (response_run_map ids rows) k = Some e) =
           (\<exists>i. paired_at ids rows k i \<and> (\<forall>j. paired_at ids rows k j \<longrightarrow> j \<le> i) \<and>
                e = run_entry (rows ! i))"
proof -
  have d: "distinct (map fst (run_map_object ids rows))"
    by (simp add: run_map_object_def distinct_fromEntries)
  have l: "map_of (response_run_map ids rows) k =
             (if \<exists>i. paired_at ids rows k i
              then Some (run_entry (rows ! (GREATEST i. paired_at ids rows k i))) else None)"
    by (simp add: response_run_map_def map_of_defined_properties[OF d]
        run_map_object_lookup[OF assms])
  show ?thesis
  proof (cases "\<exists>i. paired_at ids rows k i")
    case False
    with l show ?thesis by auto
  next
    case True
    then obtain i0 where i0: "paired_at ids rows k i0" ..
    let ?g = "GREATEST i. paired_at ids rows k i"
    have g1: "paired_at ids rows k ?g" using i0 by (rule paired_at_greatest(1))
    have g2: "\<And>j. paired_at ids rows k j \<Longrightarrow> j \<le> ?g" using i0 by (rule paired_at_greatest(2))
    have u: "i = ?g" if "paired_at ids rows k i" and "\<forall>j. paired_at ids rows k j \<longrightarrow> j \<le> i" for i
      using that g1 g2 by (meson le_antisym)
    show ?thesis
    proof
      assume "map_of (response_run_map ids rows) k = Some e"
      with l True have "e = run_entry (rows ! ?g)" by simp
      with g1 g2 show "\<exists>i. paired_at ids rows k i \<and> (\<forall>j. paired_at ids rows k j \<longrightarrow> j \<le> i) \<and>
                e = run_entry (rows ! i)" by blast
    next
      assume "\<exists>i. paired_at ids rows k i \<and> (\<forall>j. paired_at ids rows k j \<longrightarrow> j \<le> i) \<and>
                e = run_entry (rows ! i)"
      then obtain i where "paired_at ids rows k i" "\<forall>j. paired_at ids rows k j \<longrightarrow> j \<le> i"
        "e = run_entry (rows ! i)" by blast
      with u[of i] l True show "map_of (response_run_map ids rows) k = Some e" by simp
    qed
  qed
qed

text \<open>
  Claim C2, as the code has it by design. In the \<^verbatim>\<open>run_map\<close> the page receives, every
  key occurs once. For a key other than the literal \<^verbatim>\<open>undefined\<close>: it is present exactly
  when it is a returned id that is not empty and has a row at its position, and it maps
  to \<^verbatim>\<open>{row, targetCols, targetHeaders}\<close> of the row at the last such position, which
  is its only position when the id is returned once. An id that is empty or \<^verbatim>\<open>null\<close>, or
  has no row at its position, is not among these keys.
\<close>

theorem response_run_map_entries:
  "distinct (map fst (response_run_map run_ids rows)) \<and>
   (k \<noteq> ''undefined'' \<longrightarrow>
      (map_of (response_run_map run_ids rows) k = Some e) =
        (\<exists>i. paired_at run_ids rows k i \<and> (\<forall>j. paired_at run_ids rows k j \<longrightarrow> j \<le> i) \<and>
             e = run_entry (rows ! i))) \<and>
   (k \<noteq> ''undefined'' \<and> paired_at run_ids rows k i \<and> (\<forall>j. paired_at run_ids rows k j \<longrightarrow> j = i) \<longrightarrow>
      map_of (response_run_map run_ids rows) k = Some (run_entry (rows ! i))) \<and>
   (k \<noteq> ''undefined'' \<and> (\<forall>j. \<not> paired_at run_ids rows k j) \<longrightarrow>
      map_of (response_run_map run_ids rows) k = None)"
proof (intro conjI impI)
  show "distinct (map fst (response_run_map run_ids rows))"
    by (simp add: response_run_map_def run_map_object_def distinct_defined_properties
        distinct_fromEntries)
next
  assume "k \<noteq> ''undefined''"
  then show "(map_of (response_run_map run_ids rows) k = Some e) =
        (\<exists>i. paired_at run_ids rows k i \<and> (\<forall>j. paired_at run_ids rows k j \<longrightarrow> j \<le> i) \<and>
             e = run_entry (rows ! i))"
    by (rule response_lookup)
next
  assume a: "k \<noteq> ''undefined'' \<and> paired_at run_ids rows k i \<and>
             (\<forall>j. paired_at run_ids rows k j \<longrightarrow> j = i)"
  then have "\<exists>i'. paired_at run_ids rows k i' \<and> (\<forall>j. paired_at run_ids rows k j \<longrightarrow> j \<le> i') \<and>
             run_entry (rows ! i) = run_entry (rows ! i')"
    by (intro exI[of _ i]) auto
  with a show "map_of (response_run_map run_ids rows) k = Some (run_entry (rows ! i))"
    by (simp add: response_lookup)
next
  assume a: "k \<noteq> ''undefined'' \<and> (\<forall>j. \<not> paired_at run_ids rows k j)"
  then have "\<And>e. map_of (response_run_map run_ids rows) k \<noteq> Some e"
    by (simp add: response_lookup)
  then show "map_of (response_run_map run_ids rows) k = None"
    by (cases "map_of (response_run_map run_ids rows) k") auto
qed

theorem response_run_map_entries_witness:
  "''trun_c'' \<noteq> ''undefined'' \<and>
   paired_at [Some ''trun_a'', Some [], Some ''trun_c'', None, Some ''trun_e'']
     [example_row 1, example_row 2, example_row 3, example_row 4] ''trun_c'' 2 \<and>
   map_of (response_run_map [Some ''trun_a'', Some [], Some ''trun_c'', None, Some ''trun_e'']
     [example_row 1, example_row 2, example_row 3, example_row 4]) ''trun_c'' =
     Some (run_entry ([example_row 1, example_row 2, example_row 3, example_row 4] ! 2)) \<and>
   map fst (response_run_map [Some ''trun_a'', Some [], Some ''trun_c'', None, Some ''trun_e'']
     [example_row 1, example_row 2, example_row 3, example_row 4]) = [''trun_a'', ''trun_c'']"
proof -
  let ?ids = "[Some ''trun_a'', Some [], Some ''trun_c'', None, Some ''trun_e'']"
  let ?rows = "[example_row 1, example_row 2, example_row 3, example_row 4]"
  have h1: "''trun_c'' \<noteq> ''undefined''" by simp
  have h2: "paired_at ?ids ?rows ''trun_c'' 2" by code_simp
  have h3: "\<forall>j. paired_at ?ids ?rows ''trun_c'' j \<longrightarrow> j = 2"
    by (auto simp: paired_at_def nth_Cons split: nat.splits)
  have c: "map_of (response_run_map ?ids ?rows) ''trun_c'' = Some (run_entry (?rows ! 2))"
    using response_run_map_entries[of ?ids ?rows "''trun_c''" _ 2] h1 h2 h3 by blast
  have v: "map fst (response_run_map ?ids ?rows) = [''trun_a'', ''trun_c'']" by code_simp
  from h1 h2 c v show ?thesis by blast
qed

text \<open>
  Claim C2 as stated fails on two inputs. An id that is literally \<^verbatim>\<open>undefined\<close>, returned
  with a row beside an empty id, is missing from the response: the empty id is kept as the
  empty array, which \<^verbatim>\<open>Object.fromEntries\<close> stores under the key \<^verbatim>\<open>undefined\<close>. And an
  id returned twice maps to the row of its second position, not of its first.
\<close>

theorem run_map_counterexample:
  "paired_at [Some ''undefined'', Some []] [example_row 1, example_row 2] ''undefined'' 0 \<and>
   map_of (response_run_map [Some ''undefined'', Some []] [example_row 1, example_row 2])
     ''undefined'' = None \<and>
   map fst (run_map_object [Some []] [example_row 1]) = [''undefined''] \<and>
   paired_at [Some ''trun_a'', Some ''trun_a''] [example_row 1, example_row 2] ''trun_a'' 0 \<and>
   map_of (response_run_map [Some ''trun_a'', Some ''trun_a''] [example_row 1, example_row 2])
     ''trun_a'' = Some (run_entry (example_row 2)) \<and>
   run_entry (example_row 2) \<noteq> run_entry (example_row 1)"
  by code_simp

section \<open>The output schema of a job\<close>

lemma map_enumerate_snd: "map (\<lambda>x. f (snd x)) (enumerate n xs) = map f xs"
  by (induction xs arbitrary: n) auto

lemma keys_schema_properties:
  "set (map fst (fromEntries (map (\<lambda>h. (h, g h)) ths))) = set ths"
proof -
  have "map fst (map (\<lambda>h. (h, g h)) ths) = ths" by (induction ths) auto
  then show ?thesis by (simp only: keys_fromEntries)
qed

text \<open>
  Claim C9. For every row submitted, the output schema of its job is an object schema
  whose property names are exactly the row's target headers, each once, whose required
  keys are the list of target headers, and which allows no further property.
\<close>

theorem schema_closed_over_targets:
  "map schema_summary (inputs prompt processor rows) =
   map (\<lambda>r. (''object'', set (targetHeaders r), True, targetHeaders r, False)) rows"
proof -
  have "map schema_summary (inputs prompt processor rows) =
        map (\<lambda>x. (''object'', set (targetHeaders (snd x)), True, targetHeaders (snd x), False))
          (enumerate 0 rows)"
    by (simp add: inputs_def schema_summary_def buildExplicitSchema_def case_prod_unfold Let_def
        distinct_fromEntries keys_schema_properties del: set_map)
  also have "\<dots> = map (\<lambda>r. (''object'', set (targetHeaders r), True, targetHeaders r, False)) rows"
    by (rule map_enumerate_snd)
  finally show ?thesis .
qed


section \<open>The job descriptors of a selection\<close>

lemma tCols_upto: "map (\<lambda>i. a + int i) [0..<nat (b - a + 1)] = [a..b]"
  by (rule nth_equalityI) auto

lemma context_entries_snoc:
  "map (\<lambda>(i, h). (h, g i)) (enumerate 0 (hs @ [h])) =
   map (\<lambda>(i, h). (h, g i)) (enumerate 0 hs) @ [(h, g (length hs))]"
  by (simp add: enumerate_append_eq)

lemma context_lookup:
  "i < length hs \<Longrightarrow> hs ! i \<notin> set (drop (Suc i) hs) \<Longrightarrow>
   map_of (fromEntries (map (\<lambda>(i, h). (h, g i)) (enumerate 0 hs))) (hs ! i) = Some (g i)"
proof (induction hs rule: rev_induct)
  case Nil
  then show ?case by simp
next
  case (snoc h hs)
  show ?case
  proof (cases "i = length hs")
    case True
    then show ?thesis
      by (simp add: context_entries_snoc map_of_fromEntries_snoc)
  next
    case False
    with snoc.prems have i: "i < length hs" by simp
    with snoc.prems have ne: "hs ! i \<noteq> h" and nd: "hs ! i \<notin> set (drop (Suc i) hs)"
      by (auto simp: nth_append)
    from snoc.IH[OF i nd] ne i show ?thesis
      by (simp add: context_entries_snoc map_of_fromEntries_snoc nth_append)
  qed
qed

lemma context_keys:
  "set (map fst (fromEntries (map (\<lambda>(i, h). (h, g i)) (enumerate 0 hs)))) = set hs"
proof -
  have "map fst (map (\<lambda>(i, h). (h, g i)) (enumerate n hs)) = hs" for n
    by (induction hs arbitrary: n) auto
  then show ?thesis by (simp only: keys_fromEntries)
qed

text \<open>
  Claim C3, as the code has it. \<^verbatim>\<open>enrich\<close> builds one job descriptor per row of the
  interval from \<^verbatim>\<open>max(1, start.row)\<close> to \<^verbatim>\<open>max(max(1, start.row), end.row)\<close>, rows
  ascending. When the selection reaches a data row (\<^verbatim>\<open>end.row\<close> is at least 1) this is the
  interval from \<^verbatim>\<open>max(1, start.row)\<close> to \<^verbatim>\<open>end.row\<close>, so there is one descriptor per
  selected data row. Every descriptor has the selected columns, left to right, as target
  columns, their headers as target headers, and a context whose keys are the headers and
  which maps a header (the rightmost of its name) to the row's value in its column.
\<close>

theorem rowsPayload_rows_and_targets:
  "map spec_row (rowsPayload d rg) = [startRow rg..endRow rg] \<and>
   length (rowsPayload d rg) = nat (endRow rg - startRow rg + 1) \<and>
   (1 \<le> fst (range_end rg) \<and> fst (range_start rg) \<le> fst (range_end rg) \<longrightarrow>
      map spec_row (rowsPayload d rg) = [max 1 (fst (range_start rg))..fst (range_end rg)]) \<and>
   (\<forall>job \<in> set (rowsPayload d rg).
      spec_targetCols job = [startCol rg..endCol rg] \<and>
      spec_targetHeaders job = map (js_nth (headers_of d)) [startCol rg..endCol rg] \<and>
      set (map fst (spec_context job)) = set (headers_of d) \<and>
      (\<forall>i < length (headers_of d).
         headers_of d ! i \<notin> set (drop (Suc i) (headers_of d)) \<longrightarrow>
         map_of (spec_context job) (headers_of d ! i) =
           Some (js_nth (rowVals d (spec_row job)) (int i))))"
proof (intro conjI impI ballI allI)
  show rows: "map spec_row (rowsPayload d rg) = [startRow rg..endRow rg]"
    by (simp add: rowsPayload_def row_job_def comp_def Let_def)
  show "length (rowsPayload d rg) = nat (endRow rg - startRow rg + 1)"
    by (simp add: rowsPayload_def)
  assume "1 \<le> fst (range_end rg) \<and> fst (range_start rg) \<le> fst (range_end rg)"
  then have "startRow rg = max 1 (fst (range_start rg)) \<and> endRow rg = fst (range_end rg)"
    by (auto simp: startRow_def endRow_def)
  with rows show "map spec_row (rowsPayload d rg) = [max 1 (fst (range_start rg))..fst (range_end rg)]"
    by simp
next
  fix job assume "job \<in> set (rowsPayload d rg)"
  then obtain r where job: "job = row_job d rg r"
    by (auto simp: rowsPayload_def)
  show "spec_targetCols job = [startCol rg..endCol rg]"
    by (simp add: job row_job_def Let_def tCols_upto)
  show "spec_targetHeaders job = map (js_nth (headers_of d)) [startCol rg..endCol rg]"
    by (simp add: job row_job_def Let_def tCols_upto)
  show "set (map fst (spec_context job)) = set (headers_of d)"
    by (simp add: job row_job_def Let_def context_keys del: set_map)
  fix i assume "i < length (headers_of d)"
    and "headers_of d ! i \<notin> set (drop (Suc i) (headers_of d))"
  then show "map_of (spec_context job) (headers_of d ! i) =
           Some (js_nth (rowVals d (spec_row job)) (int i))"
    by (simp add: job row_job_def Let_def context_lookup)
qed

theorem rowsPayload_rows_and_targets_witness:
  "1 \<le> fst (range_end example_range) \<and>
   fst (range_start example_range) \<le> fst (range_end example_range) \<and>
   map spec_row (rowsPayload initial_sheet example_range) =
     [max 1 (fst (range_start example_range))..fst (range_end example_range)] \<and>
   map spec_row (rowsPayload initial_sheet example_range) = [1, 2, 3] \<and>
   row_job initial_sheet example_range 2 \<in> set (rowsPayload initial_sheet example_range) \<and>
   spec_targetCols (row_job initial_sheet example_range 2) =
     [startCol example_range..endCol example_range] \<and>
   spec_targetCols (row_job initial_sheet example_range 2) = [1, 2] \<and>
   spec_targetHeaders (row_job initial_sheet example_range 2) =
     [Some ''Stage'', Some ''Employee Count''] \<and>
   0 < length (headers_of initial_sheet) \<and>
   headers_of initial_sheet ! 0 \<notin> set (drop (Suc 0) (headers_of initial_sheet)) \<and>
   map_of (spec_context (row_job initial_sheet example_range 2)) (headers_of initial_sheet ! 0) =
     Some (js_nth (rowVals initial_sheet (spec_row (row_job initial_sheet example_range 2))) (int 0)) \<and>
   map_of (spec_context (row_job initial_sheet example_range 2)) ''Company'' =
     Some (Some (JStr ''Etched''))"
proof -
  let ?job = "row_job initial_sheet example_range 2"
  note t = rowsPayload_rows_and_targets[of initial_sheet example_range]
  have h1: "1 \<le> fst (range_end example_range) \<and>
            fst (range_start example_range) \<le> fst (range_end example_range)"
    by code_simp
  have h2: "?job \<in> set (rowsPayload initial_sheet example_range)"
    by code_simp
  have h3: "0 < length (headers_of initial_sheet)"
    by code_simp
  have h4: "headers_of initial_sheet ! 0 \<notin> set (drop (Suc 0) (headers_of initial_sheet))"
    by code_simp
  have c1: "map spec_row (rowsPayload initial_sheet example_range) =
     [max 1 (fst (range_start example_range))..fst (range_end example_range)]"
    using t h1 by blast
  have c2: "spec_targetCols ?job = [startCol example_range..endCol example_range]"
    using t h2 by blast
  have c3: "map_of (spec_context ?job) (headers_of initial_sheet ! 0) =
     Some (js_nth (rowVals initial_sheet (spec_row ?job)) (int 0))"
    using t h2 h3 h4 by blast
  have v1: "map spec_row (rowsPayload initial_sheet example_range) = [1, 2, 3]"
    by code_simp
  have v2: "spec_targetCols ?job = [1, 2]"
    by code_simp
  have v3: "spec_targetHeaders ?job = [Some ''Stage'', Some ''Employee Count'']"
    by code_simp
  have v4: "map_of (spec_context ?job) ''Company'' = Some (Some (JStr ''Etched''))"
    by code_simp
  from h1 h2 h3 h4 c1 c2 c3 v1 v2 v3 v4 show ?thesis by blast
qed

text \<open>
  Claim C3 as stated counts the rows from \<^verbatim>\<open>max(1, start.row)\<close> to \<^verbatim>\<open>end.row\<close>. A
  selection of one header cell, which \<^verbatim>\<open>onSelect\<close> stores as it is, has no row in that
  interval and no data row, and yields one descriptor, for row 1.
\<close>

theorem header_selection_counterexample:
  "range_sel (step initial_page (Select (Some \<lparr>range_start = (0, 1), range_end = (0, 1)\<rparr>))) =
     Some \<lparr>range_start = (0, 1), range_end = (0, 1)\<rparr> \<and>
   [max 1 (fst (range_start \<lparr>range_start = (0, 1), range_end = (0, 1)\<rparr>))..
      fst (range_end \<lparr>range_start = (0, 1), range_end = (0, 1)\<rparr>)] = [] \<and>
   map spec_row (rowsPayload initial_sheet \<lparr>range_start = (0, 1), range_end = (0, 1)\<rparr>) = [1]"
  by code_simp

section \<open>The pending set during a run\<close>

lemma clearPending_simps:
  "pending (clearPending cells s) = pending s - set cells"
  "busy (clearPending cells s) = busy s"
  by (simp_all add: clearPending_def)

lemma apply_entry_frame:
  "pending (apply_entry hi r ths tc s kv) \<subseteq> pending s \<and>
   busy (apply_entry hi r ths tc s kv) = busy s"
  by (auto simp: apply_entry_def clearPending_def split: option.splits)

lemma applyRowResult_frame:
  "pending (applyRowResult hi r content ths tcs s) \<subseteq> pending s \<and>
   busy (applyRowResult hi r content ths tcs s) = busy s"
proof -
  have "pending (foldl (apply_entry hi r ths tc) s kvs) \<subseteq> pending s \<and>
        busy (foldl (apply_entry hi r ths tc) s kvs) = busy s" for tc kvs
  proof (induction kvs arbitrary: s)
    case Nil
    then show ?case by simp
  next
    case (Cons kv kvs)
    from Cons.IH[of "apply_entry hi r ths tc s kv"] apply_entry_frame[of hi r ths tc s kv]
    show ?case by auto
  qed
  then show ?thesis by (simp add: applyRowResult_def)
qed

lemma group_inactive_clears:
  "busy (group_inactive ctx s) = False \<and>
   pending (group_inactive ctx s) = pending s - set (selectedCells ctx)"
  by (simp add: group_inactive_def clearPending_def)

lemma handleEventData_frame:
  "pending (handleEventData ctx obj s) \<subseteq> pending s \<and>
   (busy (handleEventData ctx obj s) = busy s \<or>
    (\<not> busy (handleEventData ctx obj s) \<and>
     pending (handleEventData ctx obj s) = pending s - set (selectedCells ctx)))"
proof -
  have a: "pending (applyRowResult hi r c ths tcs s) \<subseteq> pending s" for hi r c ths tcs
    using applyRowResult_frame by blast
  have b: "busy (applyRowResult hi r c ths tcs s) = busy s" for hi r c ths tcs
    using applyRowResult_frame by blast
  show ?thesis
    unfolding handleEventData_def Let_def
    by (auto simp: b group_inactive_clears clearPending_simps split: option.splits
        dest: subsetD[OF a])
qed

lemma step_shrinks:
  "e \<noteq> EnrichClick \<or> busy s \<Longrightarrow> pending (step s e) \<subseteq> pending s"
proof (cases e)
  case (StreamMessage ctx obj)
  then show ?thesis using handleEventData_frame[of ctx obj s] by auto
qed (auto simp: onSelect_def enrich_begin_def enrich_opened_def enrich_failed_def
      es_onerror_def timeout_callback_def cancelEnrichment_def clearPending_def Let_def
      split: option.splits)

lemma step_run_inv:
  assumes "of_run ctx e" and "run_inv ctx s"
  shows "run_inv ctx (step s e)"
proof (cases e)
  case (StreamMessage c obj)
  with assms(1) have c: "c = ctx" by simp
  from handleEventData_frame[of ctx obj s] assms(2) show ?thesis
    unfolding StreamMessage c run_inv_def by auto
qed (use assms in \<open>auto simp: run_inv_def enrich_opened_def enrich_failed_def
      es_onerror_def timeout_callback_def cancelEnrichment_def clearPending_def\<close>)

lemma enrich_begin_seeds:
  "range_sel s = Some rg \<Longrightarrow> \<not> busy s \<Longrightarrow>
   pending (step s EnrichClick) = pending s \<union> set (selected_cells rg) \<and>
   busy (step s EnrichClick) = (\<not> header_has_hole (sheet_data s))"
  by (simp add: enrich_begin_def addPending_def Let_def)

lemma enrich_begin_busy: "busy s \<Longrightarrow> enrich_begin s = s"
  by (simp add: enrich_begin_def split: option.splits)

lemma trace_nonempty: "trace s evs \<noteq> []"
  by (cases evs) auto

lemma length_trace: "length (trace s evs) = Suc (length evs)"
  by (induction evs arbitrary: s) auto

lemma trace_step:
  "i < length evs \<Longrightarrow> trace s evs ! Suc i = step (trace s evs ! i) (evs ! i)"
proof (induction evs arbitrary: s i)
  case Nil
  then show ?case by simp
next
  case (Cons e evs)
  show ?case
  proof (cases i)
    case 0
    then show ?thesis by (cases evs) auto
  next
    case (Suc m)
    with Cons.prems have "m < length evs" by simp
    from Cons.IH[OF this, of "step s e"] Suc show ?thesis by simp
  qed
qed

lemma trace_run_inv:
  "run_inv ctx s \<Longrightarrow> \<forall>e \<in> set evs. of_run ctx e \<Longrightarrow> \<forall>t \<in> set (trace s evs). run_inv ctx t"
proof (induction evs arbitrary: s)
  case Nil
  then show ?case by simp
next
  case (Cons e evs)
  from Cons.prems have "run_inv ctx (step s e)" by (simp add: step_run_inv)
  with Cons.IH[of "step s e"] Cons.prems show ?case by simp
qed

lemma of_run_not_click: "of_run ctx e \<Longrightarrow> e \<noteq> EnrichClick"
  by (cases e) auto

text \<open>
  What holds of a run taken by itself. On an idle page whose header row has no hole, the
  click on Enrich sets \<^verbatim>\<open>busy\<close> and makes the pending set the selected cells of the
  data rows. From then on, whatever the callbacks of this run and the cancel button do, in
  any order: each step leaves the pending set a subset of what it was, so its size never
  grows and no cell comes back; while \<^verbatim>\<open>busy\<close> holds a further click on Enrich changes
  nothing; and in every state in which \<^verbatim>\<open>busy\<close> is false the pending set is empty.
\<close>

lemma pending_set_within_run:
  assumes idle: "\<not> busy s0" "pending s0 = {}"
    and sel: "range_sel s0 = Some rg"
    and dense: "\<not> header_has_hole (sheet_data s0)"
    and ctx: "selectedCells ctx = selected_cells rg"
    and evs: "\<forall>e \<in> set evs. of_run ctx e"
  shows "busy (step s0 EnrichClick) \<and>
         pending (step s0 EnrichClick) = set (selected_cells rg) \<and>
         (\<forall>i < length evs.
            pending (trace (step s0 EnrichClick) evs ! Suc i) \<subseteq>
              pending (trace (step s0 EnrichClick) evs ! i) \<and>
            card (pending (trace (step s0 EnrichClick) evs ! Suc i)) \<le>
              card (pending (trace (step s0 EnrichClick) evs ! i))) \<and>
         (\<forall>t \<in> set (trace (step s0 EnrichClick) evs).
            (\<not> busy t \<longrightarrow> pending t = {}) \<and> (busy t \<longrightarrow> step t EnrichClick = t))"
proof -
  let ?s1 = "step s0 EnrichClick"
  let ?tr = "trace ?s1 evs"
  from enrich_begin_seeds[OF sel idle(1)] idle(2) dense
  have s1: "busy ?s1" "pending ?s1 = set (selected_cells rg)" by auto
  then have inv1: "run_inv ctx ?s1" by (simp add: run_inv_def ctx)
  have inv: "\<forall>t \<in> set ?tr. run_inv ctx t"
    using inv1 evs by (rule trace_run_inv)
  have sub: "pending (?tr ! Suc i) \<subseteq> pending (?tr ! i)" if "i < length evs" for i
  proof -
    from that evs have "of_run ctx (evs ! i)" by simp
    then have "evs ! i \<noteq> EnrichClick" by (rule of_run_not_click)
    then show ?thesis using that by (simp add: trace_step step_shrinks)
  qed
  have fin: "finite (pending t)" if "t \<in> set ?tr" for t
  proof -
    from inv that have "pending t \<subseteq> set (selectedCells ctx)" by (simp add: run_inv_def)
    then show ?thesis by (rule finite_subset) simp
  qed
  have crd: "card (pending (?tr ! Suc i)) \<le> card (pending (?tr ! i))" if "i < length evs" for i
  proof -
    from that have "?tr ! i \<in> set ?tr" by (simp add: length_trace)
    then have "finite (pending (?tr ! i))" by (rule fin)
    then show ?thesis using sub[OF that] by (rule card_mono)
  qed
  have fin2: "(\<not> busy t \<longrightarrow> pending t = {}) \<and> (busy t \<longrightarrow> step t EnrichClick = t)"
    if "t \<in> set ?tr" for t
    using inv that by (auto simp: run_inv_def enrich_begin_busy)
  from s1 sub crd fin2 show ?thesis by blast
qed

text \<open>
  Each of the five ways a run ends, taken while the pending set lies within the cells of
  the run, leaves \<^verbatim>\<open>busy\<close> false and the pending set empty: the group going inactive,
  the stream failing, the timer of the run firing, the submission failing, and a
  cancellation that is not refused.
\<close>

lemma own_paths_clear_pending:
  assumes "pending s \<subseteq> set (selectedCells ctx)"
  shows "\<not> busy (group_inactive ctx s) \<and> pending (group_inactive ctx s) = {}"
    and "\<not> busy (es_onerror ctx s) \<and> pending (es_onerror ctx s) = {}"
    and "\<not> busy (timeout_callback ctx s) \<and> pending (timeout_callback ctx s) = {}"
    and "\<not> busy (enrich_failed ctx s) \<and> pending (enrich_failed ctx s) = {}"
  using assms
  by (auto simp: group_inactive_def es_onerror_def timeout_callback_def enrich_failed_def
      clearPending_def)

lemma cancel_clears_pending:
  "busy s \<Longrightarrow> currentTaskGroupId s = Some g \<Longrightarrow> g \<noteq> [] \<Longrightarrow>
   \<not> busy (cancelEnrichment s) \<and> pending (cancelEnrichment s) = {}"
  by (simp add: cancelEnrichment_def)

text \<open>
  The scenario of the specification, run through: six cells pending at the start and
  after the response, four after the completed job, two after the failed one, none when
  the group goes inactive; two successes, one error, \<^verbatim>\<open>busy\<close> false at the end.
\<close>

lemma specification_scenario:
  "map (\<lambda>t. card (pending t)) example_trace = [6, 6, 4, 2, 0] \<and>
   map busy example_trace = [True, True, True, True, False] \<and>
   successCount (last example_trace) = 2 \<and> errorCount (last example_trace) = 1"
  by code_simp

text \<open>
  On a sheet whose header row has a hole the click on Enrich marks the selected cells
  pending and stops before \<^verbatim>\<open>busy\<close> is set.
\<close>

lemma enrich_on_holed_header:
  "busy (step holed_page EnrichClick) = False \<and>
   pending (step holed_page EnrichClick) = {(1, 1), (1, 2), (2, 1), (2, 2), (3, 1), (3, 2)}"
  by code_simp

text \<open>
  Claim C5 does not hold of the code. It says that within a run the pending set is
  seeded once with the selected cells and then only shrinks, and that every path that
  returns \<^verbatim>\<open>busy\<close> to false first empties it. The pending set does only shrink while
  \<^verbatim>\<open>busy\<close> holds (lemma \<open>step_shrinks\<close>), but a timeout can return \<^verbatim>\<open>busy\<close> to false
  with cells pending. The page is idle after a first run was cancelled: not busy, nothing
  pending, the cell of row 5 selected, the timer of the cancelled run still armed. The
  click on Enrich starts the second run: busy, the cell (5, 1) pending. The submission
  succeeds, and then the timer of the first run fires: its callback clears the cells of
  the first run only and sets \<^verbatim>\<open>busy\<close> to false, while the cell (5, 1) of the run under
  way stays pending.
\<close>

theorem stale_timeout_leaves_cells_pending:
  "busy idle_again = False \<and> pending idle_again = {} \<and>
   range_sel idle_again = Some second_range \<and> timeouts idle_again = {1} \<and>
   busy (step idle_again EnrichClick) = True \<and>
   pending (step idle_again EnrichClick) = {(5, 1)} \<and>
   busy (last (trace (step idle_again EnrichClick)
     [SubmitOk second_run ''tgrp_2'', TimeoutFired example_run])) = False \<and>
   pending (last (trace (step idle_again EnrichClick)
     [SubmitOk second_run ''tgrp_2'', TimeoutFired example_run])) = {(5, 1)}"
  by code_simp

section \<open>The ways a run ends\<close>

lemma group_inactive_disarms:
  "run_no ctx \<notin> timeouts (group_inactive ctx s) \<and> run_no ctx \<notin> es_open (group_inactive ctx s)"
  by (simp add: group_inactive_def clearPending_def)

lemma cancel_keeps_timeouts: "timeouts (cancelEnrichment s) = timeouts s"
  by (simp add: cancelEnrichment_def)

lemma timeout_closes_stream:
  "run_no ctx \<notin> es_open (step s (TimeoutFired ctx)) \<or> run_no ctx \<notin> timeouts s"
  by (simp add: timeout_callback_def clearPending_def)

lemma cancel_when_not_busy: "\<not> busy s \<Longrightarrow> step s CancelClick = s"
  by (simp add: cancelEnrichment_def)

lemma closed_stream_is_silent:
  "run_no ctx \<notin> es_open s \<Longrightarrow>
   step s (StreamMessage ctx obj) = s \<and> step s (StreamError ctx) = s"
  by simp

lemma cleared_timer_is_silent: "run_no ctx \<notin> timeouts s \<Longrightarrow> step s (TimeoutFired ctx) = s"
  by simp

text \<open>
  Claim C6 does not hold of the code. Once the group went inactive the timer is cleared
  and the stream closed, and once the timer fired the stream is closed and a cancel does
  nothing, as the lemmas above say. But the timer of a run is cleared only where the
  group goes inactive and where the stream fails, and not by \<^verbatim>\<open>cancelEnrichment\<close>. A first run is
  started and cancelled: its timer stays armed. A second run is started on the cell of row
  5: it is busy, its cell is pending, its stream open. Then the timer of the first run
  fires: \<^verbatim>\<open>busy\<close> is false, the group id and \<^verbatim>\<open>esRef.current\<close> are gone, while the cell of
  the second run is still pending and its stream still open.
\<close>

theorem timeout_fires_after_cancel:
  "timeouts (last (trace initial_page (take 4 cancel_then_rerun))) = {1} \<and>
   busy (last (trace initial_page (take 4 cancel_then_rerun))) = False \<and>
   busy (last (trace initial_page cancel_then_rerun)) = True \<and>
   pending (last (trace initial_page cancel_then_rerun)) = {(5, 1)} \<and>
   es_open (last (trace initial_page cancel_then_rerun)) = {2} \<and>
   busy (last (trace initial_page (cancel_then_rerun @ [TimeoutFired example_run]))) = False \<and>
   pending (last (trace initial_page (cancel_then_rerun @ [TimeoutFired example_run]))) = {(5, 1)} \<and>
   es_open (last (trace initial_page (cancel_then_rerun @ [TimeoutFired example_run]))) = {2} \<and>
   esRef (last (trace initial_page (cancel_then_rerun @ [TimeoutFired example_run]))) = None \<and>
   currentTaskGroupId (last (trace initial_page (cancel_then_rerun @ [TimeoutFired example_run]))) =
     None"
  by code_simp

section \<open>The event stream proxy\<close>













lemma no_fetch_otherwise:
  "\<not> needs_backfill env eventStr \<Longrightarrow> fetches (fst (process_event env eventStr st)) = fetches st"
  by (auto simp: needs_backfill_def process_event_def Let_def safeEnqueue_def
      controller_enqueue_def split: option.splits)

end
